theory Spec2Isabelle
  imports Complex_Main "HOL-Library.AList"
begin

section \<open>Redundancy manager: data model\<close>

text \<open>
  The class \<open>RedundancyManager\<close> keeps three JavaScript \<open>Map\<close>s and one array. A
  JavaScript \<open>Map\<close> iterates in insertion order, \<open>set\<close> on a present key keeps the key's
  position, and \<open>delete\<close> removes the key: this is an association list with
  \<open>AList.update\<close>, \<open>AList.delete\<close> and \<open>map_of\<close>. Process ids stand for the worker
  handles returned by \<open>cluster.fork\<close>; \<open>Date.now()\<close> is a number of milliseconds.
\<close>

type_synonym pid = nat
type_synonym millis = nat

record WorkerInfo =
  id_w :: string
  worker :: pid
  restartCount :: nat
  startTime :: millis

datatype Status = alive | dead

record Health =
  pid_h :: pid
  id_h :: string
  uptime :: int
  restarts :: nat
  status :: Status

datatype RedundancyLevel = HIGH | MEDIUM | LOW | CRITICAL

record Config =
  maxWorkers :: nat
  healthCheckInterval :: nat
  restartDelay :: nat
  maxRestartAttempts :: nat
  replicationSites :: "string list"

text \<open>What the manager prints with \<open>console.log\<close>, one constructor per message.\<close>

datatype notice =
    WorkerSpawned string pid
  | ExceededRestartLimit string
  | RestartingWorker string
  | LowRedundancy nat
  | IncreasingRedundancy string
  | Replicated string
  | ReplicationFailed string
  | CreatingChecksumRegistry
  | ChecksumRegistryCreated

text \<open>
  The trace records what the manager does to the outside: console lines, calls of
  \<open>cluster.fork\<close>, calls of \<open>setTimeout\<close> and entries into \<open>increaseRedundancy\<close>.
\<close>

datatype event =
    Console notice
  | ClusterFork string pid
  | SetTimeout nat
  | IncreaseRedundancyCall

text \<open>
  The fields of the object, then the callbacks that \<open>setTimeout\<close> holds (each closure
  captures the retiring \<open>workerInfo\<close>) and the trace.
\<close>

record Manager =
  workers :: "(pid \<times> WorkerInfo) list"
  healthChecks :: "(string \<times> Health) list"
  failoverQueue :: "string list"
  replicationFactor :: nat
  config :: Config
  timers :: "(nat \<times> WorkerInfo) list"
  trace :: "event list"

definition constructor :: "nat \<Rightarrow> Manager" where
  "constructor cpus =
     \<lparr> workers = [], healthChecks = [], failoverQueue = [], replicationFactor = 3,
       config = \<lparr> maxWorkers = min cpus 8, healthCheckInterval = 5000,
                  restartDelay = 2000, maxRestartAttempts = 5,
                  replicationSites =
                    [''/Volumes/Macintosh HD/usr/local/head-crab'',
                     ''/tmp/head-crab-backup'',
                     ''~/.head-crab/backup''] \<rparr>,
       timers = [], trace = [] \<rparr>"

definition emit :: "event \<Rightarrow> Manager \<Rightarrow> Manager" where
  "emit e s = s\<lparr>trace := trace s @ [e]\<rparr>"

section \<open>Worker pool supervisor\<close>

text \<open>\<open>forkWorker(id)\<close>: the new process id and the clock come from the environment.\<close>

definition forkWorker :: "string \<Rightarrow> pid \<Rightarrow> millis \<Rightarrow> Manager \<Rightarrow> Manager" where
  "forkWorker i p now s =
     (let s1 = emit (ClusterFork i p) s;
          s2 = s1\<lparr>workers := AList.update p
                 \<lparr>id_w = i, worker = p, restartCount = 0, startTime = now\<rparr> (workers s1)\<rparr>
      in emit (Console (WorkerSpawned i p)) s2)"

text \<open>
  \<open>handleWorkerFailure(worker)\<close>, up to the call of \<open>setTimeout\<close>: the callback is stored
  with its delay and the captured record.
\<close>

definition handleWorkerFailure :: "pid \<Rightarrow> Manager \<Rightarrow> Manager" where
  "handleWorkerFailure p s =
     (case map_of (workers s) p of
        None \<Rightarrow> s
      | Some workerInfo \<Rightarrow>
          (let s1 = s\<lparr>workers := AList.delete p (workers s)\<rparr>
           in if restartCount workerInfo \<ge> maxRestartAttempts (config s1)
              then (let s2 = emit (Console (ExceededRestartLimit (id_w workerInfo))) s1
                    in s2\<lparr>failoverQueue := failoverQueue s2 @ [id_w workerInfo]\<rparr>)
              else (let s2 = emit (SetTimeout (restartDelay (config s1))) s1
                    in s2\<lparr>timers := timers s2 @ [(restartDelay (config s1), workerInfo)]\<rparr>)))"

text \<open>
  The body of the callback given to \<open>setTimeout\<close>: fork under the old id, look the new
  record up by the new process id and overwrite its \<open>restartCount\<close>.
\<close>

definition restartCallback :: "WorkerInfo \<Rightarrow> pid \<Rightarrow> millis \<Rightarrow> Manager \<Rightarrow> Manager" where
  "restartCallback workerInfo newPid now s =
     (let s1 = emit (Console (RestartingWorker (id_w workerInfo))) s;
          s2 = forkWorker (id_w workerInfo) newPid now s1
      in s2\<lparr>workers := AList.map_entry newPid
              (\<lambda>newInfo. newInfo\<lparr>restartCount := restartCount workerInfo + 1\<rparr>) (workers s2)\<rparr>)"

text \<open>
  All restart timers have the same delay, so they fire in the order they were set: the
  runtime takes the oldest pending callback and runs it.
\<close>

definition fireTimer :: "pid \<Rightarrow> millis \<Rightarrow> Manager \<Rightarrow> Manager" where
  "fireTimer newPid now s =
     (case timers s of
        [] \<Rightarrow> s
      | (d, workerInfo) # rest \<Rightarrow> restartCallback workerInfo newPid now (s\<lparr>timers := rest\<rparr>))"

text \<open>Decimal rendering of a number inside a template string.\<close>

definition digit :: "nat \<Rightarrow> char" where
  "digit d = ''0123456789'' ! d"

fun decimal :: "nat \<Rightarrow> string" where
  "decimal n =
     (if n < 10 then [digit n]
      else decimal (n div 10) @ [digit (n mod 10)])"

declare decimal.simps [simp del]

definition increaseRedundancy :: "pid \<Rightarrow> millis \<Rightarrow> Manager \<Rightarrow> Manager" where
  "increaseRedundancy p now s0 =
     (let s = emit IncreaseRedundancyCall s0;
          currentWorkers = length (workers s)
      in if currentWorkers < maxWorkers (config s)
         then (let newId = ''backup-'' @ decimal now;
                   s1 = emit (Console (IncreasingRedundancy newId)) s
               in forkWorker newId p now s1)
         else s)"

section \<open>Health monitor\<close>

text \<open>
  One run of the interval callback of \<open>startHealthMonitoring\<close>. \<open>isDead\<close> answers
  \<open>info.worker.isDead()\<close> for each handle; \<open>p\<close> is the process id that \<open>cluster.fork\<close>
  would return if the tick forks.
\<close>

definition snapshot :: "(pid \<Rightarrow> bool) \<Rightarrow> millis \<Rightarrow> pid \<times> WorkerInfo \<Rightarrow> Health" where
  "snapshot isDead now e =
     \<lparr> pid_h = fst e, id_h = id_w (snd e), uptime = int now - int (startTime (snd e)),
       restarts = restartCount (snd e),
       status = (if isDead (worker (snd e)) then dead else alive) \<rparr>"

fun recordHealth ::
  "(pid \<Rightarrow> bool) \<Rightarrow> millis \<Rightarrow> (pid \<times> WorkerInfo) list \<Rightarrow> (string \<times> Health) list
     \<Rightarrow> (string \<times> Health) list" where
  "recordHealth isDead now [] hc = hc"
| "recordHealth isDead now (e # es) hc =
     recordHealth isDead now es (AList.update (id_w (snd e)) (snapshot isDead now e) hc)"

definition aliveCount :: "(string \<times> Health) list \<Rightarrow> nat" where
  "aliveCount hc = length (filter (\<lambda>h. status h = alive) (map snd hc))"

definition healthTick :: "(pid \<Rightarrow> bool) \<Rightarrow> pid \<Rightarrow> millis \<Rightarrow> Manager \<Rightarrow> Manager" where
  "healthTick isDead p now s =
     (let s1 = s\<lparr>healthChecks := recordHealth isDead now (workers s) (healthChecks s)\<rparr>;
          n = aliveCount (healthChecks s1)
      in if n < 2
         then increaseRedundancy p now (emit (Console (LowRedundancy n)) s1)
         else s1)"

text \<open>\<open>calculateRedundancyLevel()\<close>: the chain of tests on the count, then the method.\<close>

definition levelOf :: "nat \<Rightarrow> RedundancyLevel" where
  "levelOf aliveWorkers =
     (if aliveWorkers \<ge> 3 then HIGH
      else if aliveWorkers \<ge> 2 then MEDIUM
      else if aliveWorkers \<ge> 1 then LOW
      else CRITICAL)"

definition calculateRedundancyLevel :: "Manager \<Rightarrow> RedundancyLevel" where
  "calculateRedundancyLevel s = levelOf (aliveCount (healthChecks s))"

text \<open>
  \<open>setupMasterProcess()\<close>: the loop that forks the initial workers \<open>worker-0\<close>,
  \<open>worker-1\<close>, ... (at most three). \<open>pidOf i\<close> is the process id of the \<open>i\<close>-th fork.
  The registration of the exit handler and of the two interval timers is the runtime
  calling \<open>handleWorkerFailure\<close>, \<open>healthTick\<close> and \<open>replicateData\<close> later.
\<close>

definition setupMasterProcess :: "(nat \<Rightarrow> pid) \<Rightarrow> millis \<Rightarrow> Manager \<Rightarrow> Manager" where
  "setupMasterProcess pidOf now s =
     fold (\<lambda>i. forkWorker (''worker-'' @ decimal i) (pidOf i) now)
       [0 ..< min 3 (maxWorkers (config s))] s"

text \<open>A run of calls of \<open>increaseRedundancy()\<close>, each with its process id and clock.\<close>

definition increaseRedundancyCalls :: "(pid \<times> millis) list \<Rightarrow> Manager \<Rightarrow> Manager" where
  "increaseRedundancyCalls cs s = fold (\<lambda>c. increaseRedundancy (fst c) (snd c)) cs s"

text \<open>
  One exit of the process \<open>p\<close> followed by the firing of the restart timer, the new
  process getting the id \<open>newPid\<close>.
\<close>

definition exitThenRestart :: "pid \<Rightarrow> pid \<Rightarrow> millis \<Rightarrow> Manager \<Rightarrow> Manager" where
  "exitThenRestart p newPid now s = fireTimer newPid now (handleWorkerFailure p s)"

section \<open>Status query\<close>

text \<open>
  A JavaScript number as far as \<open>getRedundancyStatus\<close> needs it: a finite value, or one
  of the three special values a division can produce. Division by zero does not raise:
  \<open>0 / 0\<close> is \<open>NaN\<close> and \<open>x / 0\<close> is an infinity. Rounding and the sign of zero are left
  out; the divisors here are an array length and the literal 1000.
\<close>

datatype jsnum = Num real | NaN | PosInfinity | NegInfinity

fun jsdiv :: "jsnum \<Rightarrow> jsnum \<Rightarrow> jsnum" where
  "jsdiv (Num a) (Num b) =
     (if b = 0 then (if a = 0 then NaN else if a > 0 then PosInfinity else NegInfinity)
      else Num (a / b))"
| "jsdiv NaN _ = NaN"
| "jsdiv _ NaN = NaN"
| "jsdiv (Num a) _ = Num 0"
| "jsdiv PosInfinity (Num b) = (if b \<ge> 0 then PosInfinity else NegInfinity)"
| "jsdiv NegInfinity (Num b) = (if b \<ge> 0 then NegInfinity else PosInfinity)"
| "jsdiv _ _ = NaN"

record RedundancyStatus =
  totalWorkers :: nat
  aliveWorkers :: nat
  failedWorkers :: nat
  averageUptime :: jsnum
  replicationSites_n :: nat
  redundancyLevel :: RedundancyLevel

definition getRedundancyStatus :: "millis \<Rightarrow> Manager \<Rightarrow> RedundancyStatus" where
  "getRedundancyStatus now s =
     (let ws = map snd (workers s);
          hs = map snd (healthChecks s)
      in \<lparr> totalWorkers = length ws,
            aliveWorkers = length (filter (\<lambda>h. status h = alive) hs),
            failedWorkers = length (failoverQueue s),
            averageUptime =
              jsdiv (jsdiv (Num (real_of_int
                               (foldl (\<lambda>sum w. sum + (int now - int (startTime w))) 0 ws)))
                           (Num (real (length ws))))
                    (Num 1000),
            replicationSites_n = length (replicationSites (config s)),
            redundancyLevel = calculateRedundancyLevel s \<rparr>)"

section \<open>File system, console and exceptions\<close>

text \<open>
  The asynchronous methods read and write files and print; any of these steps may throw.
  A computation takes the world (the files that can be read, the paths that can be
  written, the console) and returns the world it leaves together with either the error
  thrown or the value returned. Effects made before a throw stay.
\<close>

datatype error = ENOENT | EACCES

record World =
  fs_content :: "string \<Rightarrow> string option"
  fs_writable :: "string \<Rightarrow> bool"
  console :: "notice list"

type_synonym 'a comp = "World \<Rightarrow> (error + 'a) \<times> World"

definition succeed :: "'a \<Rightarrow> 'a comp" where
  "succeed v = (\<lambda>w. (Inr v, w))"

definition andThen :: "'a comp \<Rightarrow> ('a \<Rightarrow> 'b comp) \<Rightarrow> 'b comp" where
  "andThen m f = (\<lambda>w. case m w of (Inl e, w') \<Rightarrow> (Inl e, w') | (Inr v, w') \<Rightarrow> f v w')"

text \<open>\<open>try { m } catch (e) { h e }\<close>\<close>

definition tryCatch :: "'a comp \<Rightarrow> (error \<Rightarrow> 'a comp) \<Rightarrow> 'a comp" where
  "tryCatch m h = (\<lambda>w. case m w of (Inl e, w') \<Rightarrow> h e w' | (Inr v, w') \<Rightarrow> (Inr v, w'))"

definition readFile :: "string \<Rightarrow> string comp" where
  "readFile p = (\<lambda>w. case fs_content w p of None \<Rightarrow> (Inl ENOENT, w) | Some d \<Rightarrow> (Inr d, w))"

definition writeFile :: "string \<Rightarrow> string \<Rightarrow> unit comp" where
  "writeFile p d =
     (\<lambda>w. if fs_writable w p then (Inr (), w\<lparr>fs_content := (fs_content w)(p \<mapsto> d)\<rparr>)
          else (Inl EACCES, w))"

definition consoleLog :: "notice \<Rightarrow> unit comp" where
  "consoleLog n = (\<lambda>w. (Inr (), w\<lparr>console := console w @ [n]\<rparr>))"

text \<open>
  \<open>path.join(a, b)\<close> on a directory and a file name; on the paths of this program (no
  empty, dotted or doubled segments) the normalisation that \<open>path.join\<close> adds changes
  nothing.
\<close>

definition pathJoin :: "string \<Rightarrow> string \<Rightarrow> string" where
  "pathJoin a b = a @ ''/'' @ b"

text \<open>\<open>site.replace('~', os.homedir())\<close>: the first tilde becomes the home directory.\<close>

fun replaceTilde :: "string \<Rightarrow> string \<Rightarrow> string" where
  "replaceTilde home [] = []"
| "replaceTilde home (c # cs) = (if c = CHR ''~'' then home @ cs else c # replaceTilde home cs)"

section \<open>Replication service\<close>

definition criticalFiles_rm :: "string list" where
  "criticalFiles_rm =
     [''memory-indexer.js'', ''github-oauth-client.js'', ''rate-limiter.js'', ''.env'',
      ''workflow-control.json'']"

text \<open>The body of the loop over the files, with its own \<open>try\<close> and empty \<open>catch\<close>.\<close>

definition replicateFile :: "string \<Rightarrow> string \<Rightarrow> string \<Rightarrow> unit comp" where
  "replicateFile primarySite backupSite file =
     (let source = pathJoin primarySite file;
          dest = pathJoin backupSite file
      in tryCatch (andThen (readFile source) (\<lambda>data. writeFile dest data))
                  (\<lambda>e. succeed ()))"

fun replicateFiles :: "string \<Rightarrow> string \<Rightarrow> string list \<Rightarrow> unit comp" where
  "replicateFiles primarySite backupSite [] = succeed ()"
| "replicateFiles primarySite backupSite (file # rest) =
     andThen (replicateFile primarySite backupSite file)
             (\<lambda>_. replicateFiles primarySite backupSite rest)"

text \<open>The body of the loop over the backup sites, with the outer \<open>try\<close> and \<open>catch\<close>.\<close>

definition replicateSite :: "string \<Rightarrow> string \<Rightarrow> string \<Rightarrow> unit comp" where
  "replicateSite home primarySite site =
     (let backupSite = replaceTilde home site
      in tryCatch (andThen (replicateFiles primarySite backupSite criticalFiles_rm)
                           (\<lambda>_. consoleLog (Replicated backupSite)))
                  (\<lambda>error. consoleLog (ReplicationFailed backupSite)))"

fun replicateSites :: "string \<Rightarrow> string \<Rightarrow> string list \<Rightarrow> unit comp" where
  "replicateSites home primarySite [] = succeed ()"
| "replicateSites home primarySite (site # rest) =
     andThen (replicateSite home primarySite site)
             (\<lambda>_. replicateSites home primarySite rest)"

text \<open>
  \<open>replicateData()\<close>: the loop starts at index 1, so with no site configured nothing
  runs.
\<close>

definition replicateData :: "string \<Rightarrow> Manager \<Rightarrow> unit comp" where
  "replicateData home m =
     (case replicationSites (config m) of
        [] \<Rightarrow> succeed ()
      | primarySite # backups \<Rightarrow> replicateSites home primarySite backups)"

section \<open>Checksum registry\<close>

record PersistenceGuarantee =
  baseDir :: string
  persistenceLocations :: "string list"
  criticalFiles :: "string list"
  checksums :: "(string \<times> string option) list"

definition newPersistenceGuarantee :: PersistenceGuarantee where
  "newPersistenceGuarantee =
     \<lparr> baseDir = ''/Volumes/Macintosh HD/usr/local/head-crab'',
       persistenceLocations =
         [''/Volumes/Macintosh HD/usr/local/head-crab'',
          ''/System/Library/Extensions/.head-crab'',
          ''/Library/Application Support/.head-crab'',
          ''/Users/headcrab-admin/.head-crab'',
          ''/private/var/db/.head-crab'',
          ''/usr/local/share/.head-crab'',
          ''/opt/head-crab''],
       criticalFiles =
         [''head-crab-boot.js'', ''auto-setup-post-reboot.js'', ''redundancy-manager.js'',
          ''memory-indexer.js'', ''github-oauth-client.js'', ''rate-limiter.js'',
          ''github-cache.js'', ''com.headcrab.daemon.plist'', ''.env''],
       checksums = [] \<rparr>"

text \<open>
  \<open>calculateChecksum(filePath)\<close>; \<open>sha256\<close> stands for
  \<open>crypto.createHash('sha256').update(data).digest('hex')\<close>, and \<open>None\<close> for \<open>null\<close>.
\<close>

definition calculateChecksum :: "(string \<Rightarrow> string) \<Rightarrow> string \<Rightarrow> string option comp" where
  "calculateChecksum sha256 filePath =
     tryCatch (andThen (readFile filePath) (\<lambda>data. succeed (Some (sha256 data))))
              (\<lambda>error. succeed None)"

text \<open>
  The registry object. \<open>files\<close> is an object used as a dictionary from file name to a
  dictionary from location to checksum; its keys keep their insertion order.
\<close>

record Registry =
  created :: string
  version :: string
  locations :: "string list"
  files :: "(string \<times> (string \<times> string) list) list"
  integrity :: string

text \<open>
  The body of the inner loop. \<open>if (checksum)\<close> holds for a string that is not empty;
  \<open>if (!registry.files[file])\<close> holds when the file has no entry yet (no name of the
  manifest is a member of \<open>Object.prototype\<close>).
\<close>

definition recordChecksum ::
  "(string \<Rightarrow> string) \<Rightarrow> string \<Rightarrow> string \<Rightarrow> Registry \<Rightarrow> Registry comp" where
  "recordChecksum sha256 file location registry =
     (let filePath = pathJoin location file
      in andThen (calculateChecksum sha256 filePath) (\<lambda>checksum.
           case checksum of
             None \<Rightarrow> succeed registry
           | Some c \<Rightarrow>
               if c = [] then succeed registry
               else (let r1 = (if map_of (files registry) file = None
                               then registry\<lparr>files := AList.update file [] (files registry)\<rparr>
                               else registry)
                     in succeed (r1\<lparr>files :=
                          AList.map_entry file (AList.update location c) (files r1)\<rparr>))))"

fun checksumLocations ::
  "(string \<Rightarrow> string) \<Rightarrow> string \<Rightarrow> string list \<Rightarrow> Registry \<Rightarrow> Registry comp" where
  "checksumLocations sha256 file [] registry = succeed registry"
| "checksumLocations sha256 file (location # rest) registry =
     andThen (recordChecksum sha256 file location registry)
             (checksumLocations sha256 file rest)"

fun checksumFiles ::
  "(string \<Rightarrow> string) \<Rightarrow> string list \<Rightarrow> string list \<Rightarrow> Registry \<Rightarrow> Registry comp" where
  "checksumFiles sha256 [] locs registry = succeed registry"
| "checksumFiles sha256 (file # rest) locs registry =
     andThen (checksumLocations sha256 file locs registry)
             (checksumFiles sha256 rest locs)"

text \<open>The registry after the two nested loops, before it is saved.\<close>

definition computeRegistry ::
  "(string \<Rightarrow> string) \<Rightarrow> string \<Rightarrow> PersistenceGuarantee \<Rightarrow> Registry comp" where
  "computeRegistry sha256 now pg =
     checksumFiles sha256 (criticalFiles pg) (persistenceLocations pg)
       \<lparr> created = now, version = ''1.0.0-persistent'',
         locations = persistenceLocations pg, files = [], integrity = ''guaranteed'' \<rparr>"

fun saveRegistry :: "string \<Rightarrow> string list \<Rightarrow> unit comp" where
  "saveRegistry doc [] = succeed ()"
| "saveRegistry doc (location # rest) =
     andThen (tryCatch (writeFile (pathJoin location ''checksum-registry.json'') doc)
                       (\<lambda>error. succeed ()))
             (\<lambda>_. saveRegistry doc rest)"

text \<open>
  \<open>createChecksumRegistry()\<close>; \<open>stringify\<close> stands for \<open>JSON.stringify(registry, null, 2)\<close>
  and \<open>now\<close> for \<open>new Date().toISOString()\<close>.
\<close>

definition createChecksumRegistry ::
  "(string \<Rightarrow> string) \<Rightarrow> (Registry \<Rightarrow> string) \<Rightarrow> string \<Rightarrow> PersistenceGuarantee \<Rightarrow> unit comp"
  where
  "createChecksumRegistry sha256 stringify now pg =
     andThen (consoleLog CreatingChecksumRegistry) (\<lambda>_.
     andThen (computeRegistry sha256 now pg) (\<lambda>registry.
     andThen (saveRegistry (stringify registry) (persistenceLocations pg)) (\<lambda>_.
     consoleLog ChecksumRegistryCreated)))"

section \<open>Watchdog\<close>

text \<open>
  The class \<open>HeadCrabWatchdog\<close> of the script that \<open>createWatchdog\<close> deploys. The trace
  holds its console lines and the commands it hands to \<open>exec\<close>.
\<close>

datatype wevent =
    NotRunning nat nat
  | Restarting
  | Exec string
  | RecoveryFailed

record Watchdog =
  checkInterval :: nat
  failureCount :: nat
  maxFailures :: nat
  wtrace :: "wevent list"

definition newWatchdog :: Watchdog where
  "newWatchdog = \<lparr> checkInterval = 30000, failureCount = 0, maxFailures = 3, wtrace = [] \<rparr>"

text \<open>
  How a restart attempt ends: the global command starts the service, or it fails and the
  recovery script succeeds, or both fail.
\<close>

datatype outcome = CommandStarted | RecoveryScriptRan | BothFailed

text \<open>
  \<open>restartHeadCrab()\<close> calls \<open>exec\<close> and returns; the callbacks of \<open>exec\<close> run later and
  touch no field of the watchdog. Their output is entered in the trace at the call.
\<close>

definition restartHeadCrab :: "outcome \<Rightarrow> Watchdog \<Rightarrow> Watchdog" where
  "restartHeadCrab out w =
     w\<lparr>wtrace := wtrace w @ [Restarting, Exec ''head-crab''] @
          (case out of
             CommandStarted \<Rightarrow> []
           | RecoveryScriptRan \<Rightarrow> [Exec ''/usr/local/bin/head-crab-recovery.sh'']
           | BothFailed \<Rightarrow> [Exec ''/usr/local/bin/head-crab-recovery.sh'', RecoveryFailed])\<rparr>"

text \<open>
  One run of the interval callback of \<open>startWatching\<close>; \<open>isRunning\<close> is the answer of
  \<open>checkHeadCrab()\<close>.
\<close>

definition watchTick :: "bool \<Rightarrow> outcome \<Rightarrow> Watchdog \<Rightarrow> Watchdog" where
  "watchTick isRunning out w =
     (if \<not> isRunning
      then (let w1 = w\<lparr>failureCount := failureCount w + 1\<rparr>;
                w2 = w1\<lparr>wtrace := wtrace w1 @ [NotRunning (failureCount w1) (maxFailures w1)]\<rparr>
            in if failureCount w2 \<ge> maxFailures w2
               then (restartHeadCrab out w2)\<lparr>failureCount := 0\<rparr>
               else w2)
      else w\<lparr>failureCount := 0\<rparr>)"

text \<open>A run of ticks, each with its probe answer and the outcome a restart would have.\<close>

definition watchTicks :: "(bool \<times> outcome) list \<Rightarrow> Watchdog \<Rightarrow> Watchdog" where
  "watchTicks obs w = fold (\<lambda>ob. watchTick (fst ob) (snd ob)) obs w"

definition recoveries :: "Watchdog \<Rightarrow> nat" where
  "recoveries w = count_list (wtrace w) Restarting"

section \<open>What an independent recomputation of the registry gives\<close>

text \<open>
  For a file and a list of locations: the locations at which the file can be read, and
  the pairs of such a location and the hash of the file read there, in the order of the
  list. These are stated without the loops of \<open>createChecksumRegistry\<close>, to compare
  the registry with.
\<close>

definition readableSites :: "World \<Rightarrow> string \<Rightarrow> string list \<Rightarrow> string list" where
  "readableSites w file locs = filter (\<lambda>loc. fs_content w (pathJoin loc file) \<noteq> None) locs"

definition siteHashes ::
  "(string \<Rightarrow> string) \<Rightarrow> World \<Rightarrow> string \<Rightarrow> string list \<Rightarrow> (string \<times> string) list" where
  "siteHashes sha256 w file locs =
     concat (map (\<lambda>loc. case fs_content w (pathJoin loc file) of
                            None \<Rightarrow> []
                          | Some d \<Rightarrow> [(loc, sha256 d)]) locs)"

definition fileEntries ::
  "(string \<Rightarrow> string) \<Rightarrow> World \<Rightarrow> string list \<Rightarrow> string list
     \<Rightarrow> (string \<times> (string \<times> string) list) list" where
  "fileEntries sha256 w fs locs =
     concat (map (\<lambda>file. if siteHashes sha256 w file locs = [] then []
                          else [(file, siteHashes sha256 w file locs)]) fs)"

text \<open>Reading the registry: the locations listed for a file, and the hash at one.\<close>

definition siteKeys :: "Registry \<Rightarrow> string \<Rightarrow> string list" where
  "siteKeys registry file =
     (case map_of (files registry) file of None \<Rightarrow> [] | Some entry \<Rightarrow> map fst entry)"

definition siteHash :: "Registry \<Rightarrow> string \<Rightarrow> string \<Rightarrow> string option" where
  "siteHash registry file loc =
     (case map_of (files registry) file of None \<Rightarrow> None | Some entry \<Rightarrow> map_of entry loc)"

text \<open>The locations named by the failure notices among console lines.\<close>

definition failureNotices :: "notice list \<Rightarrow> string list" where
  "failureNotices ns =
     concat (map (\<lambda>n. case n of ReplicationFailed site \<Rightarrow> [site] | _ \<Rightarrow> []) ns)"

section \<open>Scenarios\<close>

text \<open>
  Three workers \<open>w0\<close>, \<open>w1\<close>, \<open>w2\<close> are spawned on an eight-core host; then \<open>w1\<close> exits
  and is restarted four times, its process id going 101, 201, 202, 203, 204.
\<close>

definition scenarioStart :: Manager where
  "scenarioStart =
     forkWorker ''w2'' 102 0 (forkWorker ''w1'' 101 0 (forkWorker ''w0'' 100 0 (constructor 8)))"

definition scenarioAfter4 :: Manager where
  "scenarioAfter4 =
     exitThenRestart 203 204 4000 (exitThenRestart 202 203 3000
       (exitThenRestart 201 202 2000 (exitThenRestart 101 201 1000 scenarioStart)))"

definition scenarioAfter5 :: Manager where
  "scenarioAfter5 = exitThenRestart 204 205 5000 scenarioAfter4"

text \<open>
  The pool of a three-core host after \<open>setupMasterProcess\<close>: three workers, which is
  also \<open>maxWorkers\<close>.
\<close>

definition fullPool :: Manager where
  "fullPool = setupMasterProcess (\<lambda>i. 100 + i) 0 (constructor 3)"

text \<open>
  The initial workers of an eight-core host, one health tick in which all three are
  alive, then the exit of \<open>worker-1\<close> (process 101).
\<close>

definition staleScenario :: Manager where
  "staleScenario =
     handleWorkerFailure 101
       (healthTick (\<lambda>_. False) 999 5000
          (setupMasterProcess (\<lambda>i. 100 + i) 0 (constructor 8)))"

text \<open>
  A file system in which the five artifacts exist at the primary site and no path can be
  written: both backup sites are unreachable.
\<close>

definition unreachableWorld :: World where
  "unreachableWorld =
     \<lparr> fs_content = (\<lambda>p. if p \<in> set (map (pathJoin ''/Volumes/Macintosh HD/usr/local/head-crab'')
                                          criticalFiles_rm)
                          then Some ''data'' else None),
       fs_writable = (\<lambda>p. False),
       console = [] \<rparr>"

text \<open>
  A file system in which only \<open>.env\<close> exists at the primary site and only its copy at
  the second backup site can be written.
\<close>

definition partialWorld :: World where
  "partialWorld =
     \<lparr> fs_content = [pathJoin ''/Volumes/Macintosh HD/usr/local/head-crab'' ''.env'' \<mapsto> ''KEY=1''],
       fs_writable = (\<lambda>p. p = pathJoin ''/Users/admin/.head-crab/backup'' ''.env''),
       console = [] \<rparr>"

text \<open>
  A read-only file system that holds \<open>.env\<close> at two of the seven locations, and a
  stand-in for the hash function.
\<close>

definition demoHash :: "string \<Rightarrow> string" where
  "demoHash d = ''sha256:'' @ d"

definition demoWorld :: World where
  "demoWorld =
     \<lparr> fs_content = [pathJoin ''/private/var/db/.head-crab'' ''.env'' \<mapsto> ''KEY=1'',
                     pathJoin ''/opt/head-crab'' ''.env'' \<mapsto> ''KEY=2''],
       fs_writable = (\<lambda>p. False),
       console = [] \<rparr>"

section \<open>Properties\<close>

subsection \<open>Redundancy level\<close>

text \<open>
  C4: the redundancy level depends on the manager only through the number of alive
  snapshots, and it is CRITICAL for 0, LOW for 1, MEDIUM for 2 and HIGH from 3 on.
\<close>

theorem C4_classification:
  "calculateRedundancyLevel s = levelOf (aliveCount (healthChecks s))
   \<and> levelOf n =
       (if n = 0 then CRITICAL else if n = 1 then LOW else if n = 2 then MEDIUM else HIGH)"
  by (simp add: calculateRedundancyLevel_def levelOf_def)

subsection \<open>Facts about the supervisor's operations\<close>

lemmas scenario_defs =
  scenarioStart_def scenarioAfter4_def scenarioAfter5_def exitThenRestart_def fireTimer_def
  handleWorkerFailure_def restartCallback_def forkWorker_def emit_def constructor_def Let_def

lemma map_of_forkWorker:
  "map_of (workers (forkWorker i p now s)) p =
     Some \<lparr>id_w = i, worker = p, restartCount = 0, startTime = now\<rparr>"
  by (simp add: forkWorker_def emit_def Let_def update_conv')


lemma length_update_le: "length (AList.update k v al) \<le> Suc (length al)"
  by (induction al) auto

lemma length_update_fresh:
  "k \<notin> fst ` set al \<Longrightarrow> length (AList.update k v al) = Suc (length al)"
  by (induction al) auto

lemma workers_forkWorker:
  "workers (forkWorker i p now s) =
     AList.update p \<lparr>id_w = i, worker = p, restartCount = 0, startTime = now\<rparr> (workers s)"
  by (simp add: forkWorker_def emit_def Let_def)

lemma config_forkWorker: "config (forkWorker i p now s) = config s"
  by (simp add: forkWorker_def emit_def Let_def)

lemma healthChecks_forkWorker: "healthChecks (forkWorker i p now s) = healthChecks s"
  by (simp add: forkWorker_def emit_def Let_def)

lemma trace_forkWorker:
  "trace (forkWorker i p now s) = trace s @ [ClusterFork i p, Console (WorkerSpawned i p)]"
  by (simp add: forkWorker_def emit_def Let_def)

lemma config_increaseRedundancy: "config (increaseRedundancy p now s) = config s"
  by (simp add: increaseRedundancy_def emit_def Let_def config_forkWorker)

lemma healthChecks_increaseRedundancy:
  "healthChecks (increaseRedundancy p now s) = healthChecks s"
  by (simp add: increaseRedundancy_def emit_def Let_def healthChecks_forkWorker)

lemma increaseRedundancy_bound:
  assumes "length (workers s) \<le> maxWorkers (config s)"
  shows "length (workers (increaseRedundancy p now s)) \<le> maxWorkers (config s)"
proof (cases "length (workers s) < maxWorkers (config s)")
  case True
  let ?r = "\<lparr>id_w = ''backup-'' @ decimal now, worker = p, restartCount = 0, startTime = now\<rparr>"
  have eq: "workers (increaseRedundancy p now s) = AList.update p ?r (workers s)"
    using True by (simp add: increaseRedundancy_def emit_def Let_def workers_forkWorker)
  have "length (workers (increaseRedundancy p now s)) \<le> Suc (length (workers s))"
    unfolding eq by (rule length_update_le)
  with True show ?thesis by linarith
next
  case False
  then show ?thesis using assms by (simp add: increaseRedundancy_def emit_def Let_def)
qed

lemma increaseRedundancyCalls_bound:
  "length (workers s) \<le> maxWorkers (config s) \<Longrightarrow>
   length (workers (increaseRedundancyCalls cs s)) \<le> maxWorkers (config s)"
proof (induction cs arbitrary: s)
  case Nil
  then show ?case by (simp add: increaseRedundancyCalls_def)
next
  case (Cons c cs)
  have "length (workers (increaseRedundancy (fst c) (snd c) s))
          \<le> maxWorkers (config (increaseRedundancy (fst c) (snd c) s))"
    using Cons.prems by (simp add: increaseRedundancy_bound config_increaseRedundancy)
  from Cons.IH [OF this] show ?case
    by (simp add: increaseRedundancyCalls_def config_increaseRedundancy)
qed

lemma fold_forkWorker_config:
  "config (fold (\<lambda>i. forkWorker (f i) (g i) now) xs s) = config s"
  by (induction xs arbitrary: s) (simp_all add: config_forkWorker)

lemma fold_forkWorker_length:
  "length (workers (fold (\<lambda>i. forkWorker (f i) (g i) now) xs s))
     \<le> length (workers s) + length xs"
proof (induction xs arbitrary: s)
  case Nil
  then show ?case by simp
next
  case (Cons x xs)
  have "length (workers (forkWorker (f x) (g x) now s)) \<le> Suc (length (workers s))"
    by (simp add: workers_forkWorker length_update_le)
  with Cons.IH [of "forkWorker (f x) (g x) now s"] show ?case by simp
qed

lemma setupMasterProcess_bound:
  "workers s = [] \<Longrightarrow>
   length (workers (setupMasterProcess pidOf now s))
     \<le> maxWorkers (config (setupMasterProcess pidOf now s))"
  using fold_forkWorker_length [of "\<lambda>i. ''worker-'' @ decimal i" pidOf now
      "[0 ..< min 3 (maxWorkers (config s))]" s]
  by (simp add: setupMasterProcess_def fold_forkWorker_config)

lemma trace_increaseRedundancy_count:
  "count_list (trace (increaseRedundancy p now s)) IncreaseRedundancyCall =
     count_list (trace s) IncreaseRedundancyCall + 1"
  by (simp add: increaseRedundancy_def emit_def Let_def trace_forkWorker)

lemma recordHealth_keys:
  "fst ` set (recordHealth isDead now ws hc) = fst ` set hc \<union> (\<lambda>e. id_w (snd e)) ` set ws"
  by (induction ws arbitrary: hc) (auto simp add: dom_update)

lemma recordHealth_other:
  "k \<notin> (\<lambda>e. id_w (snd e)) ` set ws \<Longrightarrow>
   map_of (recordHealth isDead now ws hc) k = map_of hc k"
  by (induction ws arbitrary: hc) (auto simp add: update_conv')

lemma healthChecks_handleWorkerFailure:
  "healthChecks (handleWorkerFailure p s) = healthChecks s"
  by (simp add: handleWorkerFailure_def emit_def Let_def split: option.splits)

lemma healthChecks_fireTimer: "healthChecks (fireTimer p now s) = healthChecks s"
  by (simp add: fireTimer_def restartCallback_def emit_def Let_def healthChecks_forkWorker
      split: list.splits prod.splits)


text \<open>
  The pool has one record per process id, and every operation keeps it so; the length of
  the list is then the \<open>size\<close> of the \<open>Map\<close>.
\<close>

lemma distinct_forkWorker:
  "distinct (map fst (workers s)) \<Longrightarrow> distinct (map fst (workers (forkWorker i p now s)))"
  by (simp add: workers_forkWorker distinct_update)

lemma distinct_handleWorkerFailure:
  "distinct (map fst (workers s)) \<Longrightarrow> distinct (map fst (workers (handleWorkerFailure p s)))"
  by (simp add: handleWorkerFailure_def emit_def Let_def distinct_delete split: option.splits)

lemma distinct_restartCallback:
  "distinct (map fst (workers s)) \<Longrightarrow>
   distinct (map fst (workers (restartCallback info p now s)))"
  by (simp add: restartCallback_def emit_def Let_def workers_forkWorker distinct_update
      distinct_map_entry)

lemma distinct_fireTimer:
  "distinct (map fst (workers s)) \<Longrightarrow> distinct (map fst (workers (fireTimer p now s)))"
  by (simp add: fireTimer_def distinct_restartCallback split: list.splits prod.splits)

lemma distinct_increaseRedundancy:
  "distinct (map fst (workers s)) \<Longrightarrow>
   distinct (map fst (workers (increaseRedundancy p now s)))"
  by (simp add: increaseRedundancy_def emit_def Let_def workers_forkWorker distinct_update)

lemma distinct_healthTick:
  "distinct (map fst (workers s)) \<Longrightarrow>
   distinct (map fst (workers (healthTick isDead p now s)))"
  by (simp add: healthTick_def emit_def Let_def distinct_increaseRedundancy)

subsection \<open>Restart policy\<close>



text \<open>
  C2, as the claim states it, fails: in the scenario, the record that retires at the
  fifth exit of \<open>w1\<close> has restartCount 4, the failover queue stays empty and a fifth
  restart is scheduled.
\<close>

theorem C2_fifth_exit_counterexample:
  "\<not> (map_option restartCount (map_of (workers scenarioAfter4) 204) = Some 5
      \<and> failoverQueue (handleWorkerFailure 204 scenarioAfter4) = [''w1'']
      \<and> timers (handleWorkerFailure 204 scenarioAfter4) = [])
   \<and> map_option restartCount (map_of (workers scenarioAfter4) 204) = Some 4
   \<and> failoverQueue (handleWorkerFailure 204 scenarioAfter4) = []
   \<and> timers (handleWorkerFailure 204 scenarioAfter4) =
       [(2000, \<lparr>id_w = ''w1'', worker = 204, restartCount = 4, startTime = 4000\<rparr>)]"
  by (simp add: scenario_defs)

text \<open>
  C2, amended: in the scenario, the fifth exit of \<open>w1\<close> schedules the fifth restart, whose
  record has restartCount 5; at the sixth exit the retiring record's restartCount is 5,
  \<open>w1\<close> is appended to the failover queue, no sixth restart is scheduled and \<open>w1\<close> is no
  longer in the pool.
\<close>

theorem C2_sixth_exit_retires:
  "map_of (workers scenarioStart) 100 =
     Some \<lparr>id_w = ''w0'', worker = 100, restartCount = 0, startTime = 0\<rparr>
   \<and> map_of (workers scenarioStart) 101 =
     Some \<lparr>id_w = ''w1'', worker = 101, restartCount = 0, startTime = 0\<rparr>
   \<and> map_of (workers scenarioStart) 102 =
     Some \<lparr>id_w = ''w2'', worker = 102, restartCount = 0, startTime = 0\<rparr>
   \<and> maxRestartAttempts (config scenarioStart) = 5
   \<and> map_of (workers (exitThenRestart 101 201 1000 scenarioStart)) 201 =
       Some \<lparr>id_w = ''w1'', worker = 201, restartCount = 1, startTime = 1000\<rparr>
   \<and> failoverQueue scenarioAfter5 = [] \<and> timers scenarioAfter5 = []
   \<and> map_of (workers scenarioAfter5) 205 =
       Some \<lparr>id_w = ''w1'', worker = 205, restartCount = 5, startTime = 5000\<rparr>
   \<and> failoverQueue (handleWorkerFailure 205 scenarioAfter5) = [''w1'']
   \<and> timers (handleWorkerFailure 205 scenarioAfter5) = []
   \<and> count_list (trace (handleWorkerFailure 205 scenarioAfter5)) (SetTimeout 2000) = 5
   \<and> map fst (workers (handleWorkerFailure 205 scenarioAfter5)) = [100, 102]"
  by (simp add: scenario_defs)

subsection \<open>Pool size\<close>

text \<open>
  C5: a call of increaseRedundancy made while the pool holds fewer than maxWorkers
  records prints the notice, calls \<open>cluster.fork\<close> exactly once, with the id
  \<open>backup-<clock>\<close>, and registers the new process under its process id with that id
  and restartCount 0 (the pool grows by one when the process id is new). A call made
  otherwise forks nothing and changes nothing: pool and trace are as before, apart from
  the trace entry of the call itself. So a run of such calls from a pool within the bound
  stays within the bound, and from the pool that setupMasterProcess builds on a fresh
  manager it never exceeds min(CPU count, 8), the constructor's maxWorkers.
\<close>

theorem C5_increaseRedundancy_bounded:
  "(length (workers s) < maxWorkers (config s) \<longrightarrow>
      workers (increaseRedundancy p now s) =
        AList.update p \<lparr>id_w = ''backup-'' @ decimal now, worker = p,
                        restartCount = 0, startTime = now\<rparr> (workers s)
    \<and> trace (increaseRedundancy p now s) =
        trace s @ [IncreaseRedundancyCall,
                   Console (IncreasingRedundancy (''backup-'' @ decimal now)),
                   ClusterFork (''backup-'' @ decimal now) p,
                   Console (WorkerSpawned (''backup-'' @ decimal now) p)]
    \<and> map_of (workers (increaseRedundancy p now s)) p =
        Some \<lparr>id_w = ''backup-'' @ decimal now, worker = p,
              restartCount = 0, startTime = now\<rparr>
    \<and> (p \<notin> fst ` set (workers s) \<longrightarrow>
         length (workers (increaseRedundancy p now s)) = length (workers s) + 1))
   \<and> (\<not> length (workers s) < maxWorkers (config s) \<longrightarrow>
        increaseRedundancy p now s = emit IncreaseRedundancyCall s
      \<and> workers (increaseRedundancy p now s) = workers s
      \<and> trace (increaseRedundancy p now s) = trace s @ [IncreaseRedundancyCall])
   \<and> (length (workers s) \<le> maxWorkers (config s) \<longrightarrow>
        length (workers (increaseRedundancyCalls cs s)) \<le> maxWorkers (config s))
   \<and> length (workers (increaseRedundancyCalls cs
                (setupMasterProcess pidOf t0 (constructor cpus)))) \<le> min cpus 8
   \<and> maxWorkers (config (constructor cpus)) = min cpus 8"
proof -
  let ?s0 = "setupMasterProcess pidOf t0 (constructor cpus)"
  let ?r = "\<lparr>id_w = ''backup-'' @ decimal now, worker = p, restartCount = 0, startTime = now\<rparr>"
  have c: "maxWorkers (config ?s0) = min cpus 8"
    by (simp add: setupMasterProcess_def fold_forkWorker_config constructor_def)
  have "length (workers ?s0) \<le> maxWorkers (config ?s0)"
    by (rule setupMasterProcess_bound) (simp add: constructor_def)
  from increaseRedundancyCalls_bound [OF this, of cs]
  have init: "length (workers (increaseRedundancyCalls cs ?s0)) \<le> min cpus 8"
    by (simp add: c)
  have step: "length (workers s) < maxWorkers (config s) \<longrightarrow>
      workers (increaseRedundancy p now s) = AList.update p ?r (workers s)"
    by (simp add: increaseRedundancy_def emit_def Let_def workers_forkWorker)
  have tr: "length (workers s) < maxWorkers (config s) \<longrightarrow>
      trace (increaseRedundancy p now s) =
        trace s @ [IncreaseRedundancyCall,
                   Console (IncreasingRedundancy (''backup-'' @ decimal now)),
                   ClusterFork (''backup-'' @ decimal now) p,
                   Console (WorkerSpawned (''backup-'' @ decimal now) p)]"
    by (simp add: increaseRedundancy_def emit_def Let_def trace_forkWorker)
  have look: "length (workers s) < maxWorkers (config s) \<longrightarrow>
      map_of (workers (increaseRedundancy p now s)) p = Some ?r"
    by (simp add: increaseRedundancy_def emit_def Let_def map_of_forkWorker)
  have fresh: "length (workers s) < maxWorkers (config s) \<longrightarrow>
      p \<notin> fst ` set (workers s) \<longrightarrow>
         length (workers (increaseRedundancy p now s)) = length (workers s) + 1"
    using step by (simp add: length_update_fresh)
  have noop: "\<not> length (workers s) < maxWorkers (config s) \<longrightarrow>
        increaseRedundancy p now s = emit IncreaseRedundancyCall s
      \<and> workers (increaseRedundancy p now s) = workers s
      \<and> trace (increaseRedundancy p now s) = trace s @ [IncreaseRedundancyCall]"
    by (simp add: increaseRedundancy_def emit_def Let_def)
  have run: "length (workers s) \<le> maxWorkers (config s) \<longrightarrow>
        length (workers (increaseRedundancyCalls cs s)) \<le> maxWorkers (config s)"
    using increaseRedundancyCalls_bound [of s cs] by blast
  have mw: "maxWorkers (config (constructor cpus)) = min cpus 8"
    by (simp add: constructor_def)
  from step tr look fresh have spawn: "length (workers s) < maxWorkers (config s) \<longrightarrow>
      workers (increaseRedundancy p now s) = AList.update p ?r (workers s)
    \<and> trace (increaseRedundancy p now s) =
        trace s @ [IncreaseRedundancyCall,
                   Console (IncreasingRedundancy (''backup-'' @ decimal now)),
                   ClusterFork (''backup-'' @ decimal now) p,
                   Console (WorkerSpawned (''backup-'' @ decimal now) p)]
    \<and> map_of (workers (increaseRedundancy p now s)) p = Some ?r
    \<and> (p \<notin> fst ` set (workers s) \<longrightarrow>
         length (workers (increaseRedundancy p now s)) = length (workers s) + 1)"
    by blast
  show ?thesis
    by (intro conjI) (fact spawn noop run init mw)+
qed

lemmas fullPool_defs =
  fullPool_def setupMasterProcess_def forkWorker_def emit_def constructor_def Let_def
  decimal.simps digit_def upt_rec

theorem C5_increaseRedundancy_bounded_witness:
  "length (workers scenarioStart) < maxWorkers (config scenarioStart)
   \<and> 7 \<notin> fst ` set (workers scenarioStart)
   \<and> length (workers (increaseRedundancy 7 6000 scenarioStart)) = 4
   \<and> trace (increaseRedundancy 7 6000 scenarioStart) =
       trace scenarioStart @
         [IncreaseRedundancyCall, Console (IncreasingRedundancy ''backup-6000''),
          ClusterFork ''backup-6000'' 7, Console (WorkerSpawned ''backup-6000'' 7)]
   \<and> map_of (workers (increaseRedundancy 7 6000 scenarioStart)) 7 =
       Some \<lparr>id_w = ''backup-6000'', worker = 7, restartCount = 0, startTime = 6000\<rparr>
   \<and> \<not> length (workers (constructor 0)) < maxWorkers (config (constructor 0))
   \<and> workers (increaseRedundancy 7 6000 (constructor 0)) = []
   \<and> map fst (workers fullPool) = [100, 101, 102]
   \<and> \<not> length (workers fullPool) < maxWorkers (config fullPool)
   \<and> workers (increaseRedundancy 7 6000 fullPool) = workers fullPool
   \<and> trace (increaseRedundancy 7 6000 fullPool) = trace fullPool @ [IncreaseRedundancyCall]
   \<and> length (workers (increaseRedundancyCalls [(7, 6000), (8, 11000)] scenarioStart)) \<le> 8"
proof -
  have a: "length (workers scenarioStart) = 3" "maxWorkers (config scenarioStart) = 8"
    "7 \<notin> fst ` set (workers scenarioStart)"
    by (simp_all add: scenario_defs)
  have b: "workers (constructor 0) = []" "maxWorkers (config (constructor 0)) = 0"
    by (simp_all add: constructor_def)
  have f: "map fst (workers fullPool) = [100, 101, 102]" "maxWorkers (config fullPool) = 3"
    by (simp_all add: fullPool_defs)
  have fl: "length (workers fullPool) = 3"
    using f(1) by (metis length_map length_Cons list.size(3) numeral_3_eq_3)
  have d: "''backup-'' @ decimal 6000 = ''backup-6000''"
    by (simp add: decimal.simps digit_def)
  note t1 = C5_increaseRedundancy_bounded [of scenarioStart 7 6000 "[(7, 6000), (8, 11000)]"]
  note t2 = C5_increaseRedundancy_bounded [of "constructor 0" 7 6000]
  note t3 = C5_increaseRedundancy_bounded [of fullPool 7 6000]
  have lt: "length (workers scenarioStart) < maxWorkers (config scenarioStart)"
    using a by simp
  with t1 a(3)
  have "length (workers (increaseRedundancy 7 6000 scenarioStart)) =
          length (workers scenarioStart) + 1"
    by blast
  then have 1: "length (workers (increaseRedundancy 7 6000 scenarioStart)) = 4"
    by (simp only: a)
  from lt have "length (workers scenarioStart) \<le> maxWorkers (config scenarioStart)"
    by simp
  with t1
  have "length (workers (increaseRedundancyCalls [(7, 6000), (8, 11000)] scenarioStart))
          \<le> maxWorkers (config scenarioStart)"
    by blast
  then have 2:
    "length (workers (increaseRedundancyCalls [(7, 6000), (8, 11000)] scenarioStart)) \<le> 8"
    by (simp only: a)
  have "increaseRedundancy 7 6000 (constructor 0) = emit IncreaseRedundancyCall (constructor 0)"
    using t2 b by simp
  then have 3: "workers (increaseRedundancy 7 6000 (constructor 0)) = []"
    using b by (simp add: emit_def)
  from t1 lt have 4: "trace (increaseRedundancy 7 6000 scenarioStart) =
       trace scenarioStart @
         [IncreaseRedundancyCall, Console (IncreasingRedundancy (''backup-'' @ decimal 6000)),
          ClusterFork (''backup-'' @ decimal 6000) 7,
          Console (WorkerSpawned (''backup-'' @ decimal 6000) 7)]"
    by blast
  from t1 lt have 5: "map_of (workers (increaseRedundancy 7 6000 scenarioStart)) 7 =
       Some \<lparr>id_w = ''backup-'' @ decimal 6000, worker = 7, restartCount = 0,
             startTime = 6000\<rparr>"
    by blast
  have full: "\<not> length (workers fullPool) < maxWorkers (config fullPool)"
    by (simp add: fl f)
  with t3 have 6: "workers (increaseRedundancy 7 6000 fullPool) = workers fullPool"
    and 7: "trace (increaseRedundancy 7 6000 fullPool) = trace fullPool @ [IncreaseRedundancyCall]"
    by blast+
  show ?thesis
    by (intro conjI)
       (fact lt a(3) 1 4 [unfolded d] 5 [unfolded d] 3 f(1) full 6 7 2
        | simp add: b)+
qed

subsection \<open>Health tick\<close>

text \<open>
  C8: a health tick first refreshes the snapshots of the pooled workers; the number of
  calls of increaseRedundancy it makes is one when the alive count over the refreshed
  snapshots is below 2, and zero otherwise.
\<close>

theorem C8_tick_requests:
  "healthChecks (healthTick isDead p now s) =
     recordHealth isDead now (workers s) (healthChecks s)
   \<and> count_list (trace (healthTick isDead p now s)) IncreaseRedundancyCall =
       count_list (trace s) IncreaseRedundancyCall +
         (if aliveCount (healthChecks (healthTick isDead p now s)) < 2 then 1 else 0)"
  by (simp add: healthTick_def Let_def healthChecks_increaseRedundancy
      trace_increaseRedundancy_count emit_def)


subsection \<open>Status query\<close>

text \<open>
  C9: with an empty pool the status reports totalWorkers 0 and an averageUptime that is
  NaN, the value of the unguarded 0 / 0; the empty pool is the only case in which the
  average is NaN.
\<close>

theorem C9_average_uptime_empty_pool:
  "(workers s = [] \<longrightarrow>
      totalWorkers (getRedundancyStatus now s) = 0
    \<and> averageUptime (getRedundancyStatus now s) = NaN)
   \<and> (averageUptime (getRedundancyStatus now s) = NaN \<longleftrightarrow> workers s = [])"
  by (simp add: getRedundancyStatus_def Let_def)


theorem C9_average_uptime_empty_pool_witness:
  "workers (constructor 8) = []
   \<and> totalWorkers (getRedundancyStatus 1000 (constructor 8)) = 0
   \<and> averageUptime (getRedundancyStatus 1000 (constructor 8)) = NaN"
proof -
  have a: "workers (constructor 8) = []" by (simp add: constructor_def)
  show ?thesis using C9_average_uptime_empty_pool [of "constructor 8" 1000] a by simp
qed

subsection \<open>Stale health snapshots\<close>

text \<open>
  C10: the exit handler, the restart callback and increaseRedundancy leave the snapshot
  map untouched; a health tick keeps every key the map had and changes only the entries
  of ids that are in the pool at that tick. So a snapshot outlives its worker: in
  \<open>staleScenario\<close>, after one tick and the exit of one of three workers, the status
  reports 3 alive workers out of 2, and the classification (HIGH) counts the departed
  worker too.
\<close>

theorem C10_snapshots_never_removed:
  "healthChecks (handleWorkerFailure q s) = healthChecks s
   \<and> healthChecks (fireTimer q now s) = healthChecks s
   \<and> healthChecks (increaseRedundancy q now s) = healthChecks s
   \<and> fst ` set (healthChecks s) \<subseteq> fst ` set (healthChecks (healthTick isDead q now s))
   \<and> (k \<notin> (\<lambda>e. id_w (snd e)) ` set (workers s) \<longrightarrow>
        map_of (healthChecks (healthTick isDead q now s)) k = map_of (healthChecks s) k)
   \<and> aliveWorkers (getRedundancyStatus t s) = aliveCount (healthChecks s)
   \<and> redundancyLevel (getRedundancyStatus t s) = levelOf (aliveCount (healthChecks s))
   \<and> totalWorkers (getRedundancyStatus 6000 staleScenario) = 2
   \<and> aliveWorkers (getRedundancyStatus 6000 staleScenario) = 3
   \<and> redundancyLevel (getRedundancyStatus 6000 staleScenario) = HIGH"
proof -
  have hc: "healthChecks (healthTick isDead q now s) =
              recordHealth isDead now (workers s) (healthChecks s)"
    by (simp add: healthTick_def Let_def healthChecks_increaseRedundancy emit_def)
  have keys: "fst ` set (healthChecks s) \<subseteq> fst ` set (healthChecks (healthTick isDead q now s))"
    unfolding hc by (simp add: recordHealth_keys)
  have other: "k \<notin> (\<lambda>e. id_w (snd e)) ` set (workers s) \<longrightarrow>
        map_of (healthChecks (healthTick isDead q now s)) k = map_of (healthChecks s) k"
    unfolding hc by (simp add: recordHealth_other)
  have st: "aliveWorkers (getRedundancyStatus t s) = aliveCount (healthChecks s)
          \<and> redundancyLevel (getRedundancyStatus t s) = levelOf (aliveCount (healthChecks s))"
    by (simp add: getRedundancyStatus_def Let_def aliveCount_def calculateRedundancyLevel_def)
  have ex: "totalWorkers (getRedundancyStatus 6000 staleScenario) = 2
          \<and> aliveWorkers (getRedundancyStatus 6000 staleScenario) = 3
          \<and> redundancyLevel (getRedundancyStatus 6000 staleScenario) = HIGH"
    by (simp add: staleScenario_def setupMasterProcess_def healthTick_def
        getRedundancyStatus_def calculateRedundancyLevel_def levelOf_def aliveCount_def
        snapshot_def handleWorkerFailure_def forkWorker_def emit_def constructor_def Let_def
        decimal.simps digit_def upt_rec)
  show ?thesis
    using keys other st ex
    by (simp add: healthChecks_handleWorkerFailure healthChecks_fireTimer
        healthChecks_increaseRedundancy)
qed

theorem C10_snapshots_never_removed_witness:
  "''worker-1'' \<notin> (\<lambda>e. id_w (snd e)) ` set (workers staleScenario)
   \<and> map_option status
       (map_of (healthChecks (healthTick (\<lambda>_. True) 999 10000 staleScenario)) ''worker-1'')
     = Some alive"
proof -
  have a: "''worker-1'' \<notin> (\<lambda>e. id_w (snd e)) ` set (workers staleScenario)"
    by (simp add: staleScenario_def setupMasterProcess_def healthTick_def
        handleWorkerFailure_def forkWorker_def emit_def constructor_def Let_def
        aliveCount_def snapshot_def decimal.simps digit_def upt_rec)
  have b: "map_option status (map_of (healthChecks staleScenario) ''worker-1'') = Some alive"
    by (simp add: staleScenario_def setupMasterProcess_def healthTick_def
        handleWorkerFailure_def forkWorker_def emit_def constructor_def Let_def
        aliveCount_def snapshot_def decimal.simps digit_def upt_rec)
  show ?thesis
    using C10_snapshots_never_removed
      [of 999 staleScenario 10000 "\<lambda>_. True" "''worker-1''" 0] a b
    by simp
qed

subsection \<open>Watchdog\<close>

lemma watchTick_alive:
  "failureCount (watchTick True out w) = 0 \<and> recoveries (watchTick True out w) = recoveries w"
  by (simp add: watchTick_def recoveries_def)

lemma recoveries_restartHeadCrab:
  "count_list (wtrace (restartHeadCrab out w)) Restarting = count_list (wtrace w) Restarting + 1"
  by (cases out) (simp_all add: restartHeadCrab_def)

lemma failureCount_restartHeadCrab: "failureCount (restartHeadCrab out w) = failureCount w"
  by (simp add: restartHeadCrab_def)

lemma maxFailures_watchTick: "maxFailures (watchTick b out w) = maxFailures w"
  by (simp add: watchTick_def restartHeadCrab_def Let_def)

lemma watchTick_down:
  "failureCount (watchTick False out w) =
     (if failureCount w + 1 \<ge> maxFailures w then 0 else failureCount w + 1)
   \<and> recoveries (watchTick False out w) =
       recoveries w + (if failureCount w + 1 \<ge> maxFailures w then 1 else 0)"
  by (simp add: watchTick_def recoveries_def Let_def recoveries_restartHeadCrab)

lemma div_carry:
  assumes "0 < (m::nat)"
  shows "x div m + (x mod m + n) div m = (x + n) div m"
proof -
  have "(x div m * m + (x mod m + n)) div m = x div m + (x mod m + n) div m"
    by (rule div_mult_self3) (use assms in simp)
  moreover have "x div m * m + (x mod m + n) = x + n"
    by (simp only: add.assoc [symmetric] div_mult_mod_eq)
  ultimately show ?thesis by (simp only:)
qed

lemma count_mod: "(fc::nat) < m \<Longrightarrow> (if m \<le> fc + 1 then 0 else fc + 1) = (fc + 1) mod m"
  by (simp add: less_iff_succ_less_eq)

lemma count_div: "(fc::nat) < m \<Longrightarrow> (if m \<le> fc + 1 then 1 else 0) = (fc + 1) div m"
  by (simp add: less_iff_succ_less_eq)

lemma watchTicks_down:
  assumes "0 < maxFailures w" "failureCount w < maxFailures w"
  shows "failureCount (watchTicks (map (Pair False) outs) w) =
           (failureCount w + length outs) mod maxFailures w
       \<and> recoveries (watchTicks (map (Pair False) outs) w) =
           recoveries w + (failureCount w + length outs) div maxFailures w"
  using assms
proof (induction outs arbitrary: w)
  case Nil
  then show ?case by (simp add: watchTicks_def)
next
  case (Cons out outs)
  let ?w1 = "watchTick False out w"
  let ?m = "maxFailures w"
  have m1: "maxFailures ?w1 = ?m" by (rule maxFailures_watchTick)
  have f1: "failureCount ?w1 = (failureCount w + 1) mod ?m"
    using count_mod [OF Cons.prems(2)] by (simp only: watchTick_down)
  have r1: "recoveries ?w1 = recoveries w + (failureCount w + 1) div ?m"
    using count_div [OF Cons.prems(2)] by (simp only: watchTick_down)
  have lt: "failureCount ?w1 < maxFailures ?w1"
    using Cons.prems by (simp add: f1 m1)
  have pos: "0 < maxFailures ?w1" using Cons.prems by (simp add: m1)
  have step: "watchTicks (map (Pair False) (out # outs)) w = watchTicks (map (Pair False) outs) ?w1"
    by (simp add: watchTicks_def)
  have len: "failureCount w + 1 + length outs = failureCount w + length (out # outs)"
    by simp
  have a: "((failureCount w + 1) mod ?m + length outs) mod ?m
             = (failureCount w + length (out # outs)) mod ?m"
    using mod_add_left_eq [of "failureCount w + 1" ?m "length outs"] by (simp only: len)
  have b: "(failureCount w + 1) div ?m + ((failureCount w + 1) mod ?m + length outs) div ?m
             = (failureCount w + length (out # outs)) div ?m"
    using div_carry [OF Cons.prems(1), of "failureCount w + 1" "length outs"]
    by (simp only: len)
  from Cons.IH [OF pos lt] show ?case
    unfolding step by (simp only: m1 f1 r1 a b add.assoc)
qed

text \<open>
  C6: a tick that finds the service running sets failureCount to 0, prints nothing and
  starts no recovery. A tick that finds it not running adds one to failureCount and
  prints the new count; if the new count has reached maxFailures it calls
  restartHeadCrab once and sets failureCount to 0, whatever the outcome of the restart,
  otherwise the new count stays. Whenever a tick has started a recovery, failureCount is
  0 after it. From failureCount 0, a run of n ticks that all find the service not running
  starts n div maxFailures recoveries (one per maxFailures observations) and ends with
  failureCount n mod maxFailures; the watchdog is created with maxFailures 3 and
  failureCount 0.
\<close>

theorem C6_watchdog:
  "failureCount (watchTick True out w) = 0
   \<and> recoveries (watchTick True out w) = recoveries w
   \<and> failureCount (watchTick False out w) =
       (if failureCount w + 1 \<ge> maxFailures w then 0 else failureCount w + 1)
   \<and> recoveries (watchTick False out w) =
       recoveries w + (if failureCount w + 1 \<ge> maxFailures w then 1 else 0)
   \<and> wtrace (watchTick True out w) = wtrace w
   \<and> take (Suc (length (wtrace w))) (wtrace (watchTick False out w)) =
       wtrace w @ [NotRunning (failureCount w + 1) (maxFailures w)]
   \<and> (recoveries (watchTick isRunning out w) \<noteq> recoveries w \<longrightarrow>
        failureCount (watchTick isRunning out w) = 0)
   \<and> (0 < maxFailures w \<and> failureCount w = 0 \<longrightarrow>
        recoveries (watchTicks (map (Pair False) outs) w) =
          recoveries w + length outs div maxFailures w
      \<and> failureCount (watchTicks (map (Pair False) outs) w) = length outs mod maxFailures w)
   \<and> recoveries (watchTicks (map (Pair False) outs) newWatchdog) = length outs div 3
   \<and> maxFailures newWatchdog = 3 \<and> failureCount newWatchdog = 0"
proof -
  have gen: "0 < maxFailures w \<and> failureCount w = 0 \<longrightarrow>
        recoveries (watchTicks (map (Pair False) outs) w) =
          recoveries w + length outs div maxFailures w
      \<and> failureCount (watchTicks (map (Pair False) outs) w) = length outs mod maxFailures w"
    using watchTicks_down [of w outs] by auto
  have new: "recoveries (watchTicks (map (Pair False) outs) newWatchdog) = length outs div 3"
    using watchTicks_down [of newWatchdog outs]
    by (simp add: newWatchdog_def recoveries_def)
  have reset: "recoveries (watchTick isRunning out w) \<noteq> recoveries w \<longrightarrow>
        failureCount (watchTick isRunning out w) = 0"
    by (cases isRunning) (simp_all add: watchTick_alive watchTick_down)
  have tr: "wtrace (watchTick True out w) = wtrace w
     \<and> take (Suc (length (wtrace w))) (wtrace (watchTick False out w)) =
         wtrace w @ [NotRunning (failureCount w + 1) (maxFailures w)]"
    by (simp add: watchTick_def restartHeadCrab_def Let_def)
  show ?thesis
    using gen new reset tr
    by (simp add: watchTick_alive watchTick_down newWatchdog_def)
qed

theorem C6_watchdog_witness:
  "0 < maxFailures newWatchdog \<and> failureCount newWatchdog = 0
   \<and> recoveries (watchTicks (map (Pair False)
        [BothFailed, BothFailed, BothFailed, CommandStarted, CommandStarted, CommandStarted,
         RecoveryScriptRan]) newWatchdog) = 2
   \<and> failureCount (watchTicks (map (Pair False)
        [BothFailed, BothFailed, BothFailed, CommandStarted, CommandStarted, CommandStarted,
         RecoveryScriptRan]) newWatchdog) = 1
   \<and> recoveries (watchTick False BothFailed (newWatchdog\<lparr>failureCount := 2\<rparr>)) \<noteq>
       recoveries (newWatchdog\<lparr>failureCount := 2\<rparr>)
   \<and> failureCount (watchTick False BothFailed (newWatchdog\<lparr>failureCount := 2\<rparr>)) = 0"
proof -
  have a: "0 < maxFailures newWatchdog" "failureCount newWatchdog = 0"
    "recoveries newWatchdog = 0" "maxFailures newWatchdog = 3"
    by (simp_all add: newWatchdog_def recoveries_def)
  have b: "recoveries (watchTick False BothFailed (newWatchdog\<lparr>failureCount := 2\<rparr>)) \<noteq>
       recoveries (newWatchdog\<lparr>failureCount := 2\<rparr>)"
    by (simp add: watchTick_def restartHeadCrab_def recoveries_def newWatchdog_def Let_def)
  note t1 = C6_watchdog [of BothFailed newWatchdog False
      "[BothFailed, BothFailed, BothFailed, CommandStarted, CommandStarted, CommandStarted,
         RecoveryScriptRan]"]
  note t2 = C6_watchdog [of BothFailed "newWatchdog\<lparr>failureCount := 2\<rparr>" False "[]"]
  from t2 b have c:
    "failureCount (watchTick False BothFailed (newWatchdog\<lparr>failureCount := 2\<rparr>)) = 0"
    by blast
  from t1 a have d: "recoveries (watchTicks (map (Pair False)
        [BothFailed, BothFailed, BothFailed, CommandStarted, CommandStarted, CommandStarted,
         RecoveryScriptRan]) newWatchdog) = 2
   \<and> failureCount (watchTicks (map (Pair False)
        [BothFailed, BothFailed, BothFailed, CommandStarted, CommandStarted, CommandStarted,
         RecoveryScriptRan]) newWatchdog) = 1"
    by simp
  show ?thesis using a b c d by simp
qed

subsection \<open>Replication pass\<close>

lemma replicateFile_result:
  "fst (replicateFile p b f w) = Inr () \<and> console (snd (replicateFile p b f w)) = console w"
  by (simp add: replicateFile_def tryCatch_def andThen_def readFile_def writeFile_def
      succeed_def Let_def split: option.splits)

lemma replicateFiles_result:
  "fst (replicateFiles p b fs w) = Inr () \<and> console (snd (replicateFiles p b fs w)) = console w"
proof (induction fs arbitrary: w)
  case Nil
  then show ?case by (simp add: succeed_def)
next
  case (Cons f fs)
  obtain w1 where s: "replicateFile p b f w = (Inr (), w1)" and c: "console w1 = console w"
    using replicateFile_result [of p b f w] by (cases "replicateFile p b f w") auto
  show ?case using Cons.IH [of w1] by (simp add: andThen_def s c)
qed

lemma replicateSite_result:
  "fst (replicateSite home p site w) = Inr ()
   \<and> console (snd (replicateSite home p site w)) = console w @ [Replicated (replaceTilde home site)]"
proof -
  obtain w1 where s: "replicateFiles p (replaceTilde home site) criticalFiles_rm w = (Inr (), w1)"
    and c: "console w1 = console w"
    using replicateFiles_result [of p "replaceTilde home site" criticalFiles_rm w]
    by (cases "replicateFiles p (replaceTilde home site) criticalFiles_rm w") auto
  show ?thesis
    by (simp add: replicateSite_def Let_def tryCatch_def andThen_def s c consoleLog_def)
qed

lemma replicateSites_result:
  "fst (replicateSites home p sites w) = Inr ()
   \<and> console (snd (replicateSites home p sites w)) =
       console w @ map (\<lambda>site. Replicated (replaceTilde home site)) sites"
proof (induction sites arbitrary: w)
  case Nil
  then show ?case by (simp add: succeed_def)
next
  case (Cons site sites)
  obtain w1 where s: "replicateSite home p site w = (Inr (), w1)"
    and c: "console w1 = console w @ [Replicated (replaceTilde home site)]"
    using replicateSite_result [of home p site w] by (cases "replicateSite home p site w") auto
  show ?case using Cons.IH [of w1] by (simp add: andThen_def s c)
qed

lemma replicateFile_unwritable:
  "\<not> fs_writable w (pathJoin b f) \<Longrightarrow> replicateFile p b f w = (Inr (), w)"
  by (simp add: replicateFile_def tryCatch_def andThen_def readFile_def writeFile_def
      succeed_def Let_def split: option.splits)

lemma replicateFiles_unwritable:
  "\<forall>f \<in> set fs. \<not> fs_writable w (pathJoin b f) \<Longrightarrow> replicateFiles p b fs w = (Inr (), w)"
  by (induction fs) (simp_all add: succeed_def andThen_def replicateFile_unwritable)

lemma failureNotices_append:
  "failureNotices (xs @ ys) = failureNotices xs @ failureNotices ys"
  by (simp add: failureNotices_def)

lemma failureNotices_Replicated:
  "failureNotices (map (\<lambda>site. Replicated (f site)) sites) = []"
  by (induction sites) (simp_all add: failureNotices_def)

text \<open>
  C3: whatever the file system, a replication pass returns without an exception, and
  what it prints is one line \<open>Replicated\<close> per backup site, never a failure notice: every
  error of a read or write is caught inside the loop over the files, so the handler that
  prints the failure notice is never reached. With both backup sites unreachable the
  pass prints \<open>Replicated\<close> for each of them, writes nothing and prints no failure
  notice.
\<close>

theorem C3_replication_never_reports_failure:
  "fst (replicateData home m w) = Inr ()
   \<and> console (snd (replicateData home m w)) =
       console w @ map (\<lambda>site. Replicated (replaceTilde home site))
                      (tl (replicationSites (config m)))
   \<and> failureNotices (console (snd (replicateData home m w))) = failureNotices (console w)
   \<and> (\<forall>p. \<not> fs_writable unreachableWorld p)
   \<and> replicateData ''/Users/admin'' (constructor 8) unreachableWorld =
       (Inr (), unreachableWorld\<lparr>console :=
          [Replicated ''/tmp/head-crab-backup'', Replicated ''/Users/admin/.head-crab/backup'']\<rparr>)
   \<and> failureNotices
         (console (snd (replicateData ''/Users/admin'' (constructor 8) unreachableWorld))) = []"
proof -
  have gen: "fst (replicateData home m w) = Inr ()
   \<and> console (snd (replicateData home m w)) =
       console w @ map (\<lambda>site. Replicated (replaceTilde home site))
                      (tl (replicationSites (config m)))"
    by (cases "replicationSites (config m)")
       (simp_all add: replicateData_def succeed_def replicateSites_result)
  then have nofail:
    "failureNotices (console (snd (replicateData home m w))) = failureNotices (console w)"
    by (simp add: failureNotices_append failureNotices_Replicated)
  have unw: "\<forall>p. \<not> fs_writable unreachableWorld p" by (simp add: unreachableWorld_def)
  have inst: "replicateData ''/Users/admin'' (constructor 8) unreachableWorld =
       (Inr (), unreachableWorld\<lparr>console :=
          [Replicated ''/tmp/head-crab-backup'', Replicated ''/Users/admin/.head-crab/backup'']\<rparr>)"
    using unw
    by (simp add: replicateData_def constructor_def replicateSite_def Let_def tryCatch_def
        andThen_def replicateFiles_unwritable consoleLog_def succeed_def unreachableWorld_def)
  have inst2: "failureNotices
         (console (snd (replicateData ''/Users/admin'' (constructor 8) unreachableWorld))) = []"
    by (simp add: inst failureNotices_def)
  show ?thesis using gen nofail unw inst inst2 by simp
qed

text \<open>
  Failures of single artifacts and of a whole site do not stop the pass: in
  \<open>partialWorld\<close> three artifacts are missing before \<open>.env\<close> and the first backup site
  takes no write, and \<open>.env\<close> still reaches the second backup site.
\<close>

lemma replication_skips_failed_artifacts:
  "fst (replicateData ''/Users/admin'' (constructor 8) partialWorld) = Inr ()
   \<and> fs_content (snd (replicateData ''/Users/admin'' (constructor 8) partialWorld))
       (pathJoin ''/Users/admin/.head-crab/backup'' ''.env'') = Some ''KEY=1''
   \<and> console (snd (replicateData ''/Users/admin'' (constructor 8) partialWorld)) =
       [Replicated ''/tmp/head-crab-backup'', Replicated ''/Users/admin/.head-crab/backup'']"
  by (simp add: replicateData_def constructor_def replicateSite_def replicateFile_def
      criticalFiles_rm_def Let_def tryCatch_def andThen_def readFile_def writeFile_def
      consoleLog_def succeed_def partialWorld_def pathJoin_def)

subsection \<open>Checksum registry\<close>

lemma calculateChecksum_eq:
  "calculateChecksum sha256 p w = (Inr (map_option sha256 (fs_content w p)), w)"
  by (simp add: calculateChecksum_def tryCatch_def andThen_def readFile_def succeed_def
      split: option.splits)

lemma update_fresh: "k \<notin> fst ` set al \<Longrightarrow> AList.update k v al = al @ [(k, v)]"
  by (induction al) auto

lemma map_entry_last:
  "k \<notin> fst ` set al \<Longrightarrow> AList.map_entry k f (al @ [(k, v)]) = al @ [(k, f v)]"
  by (induction al) auto

lemma map_of_last: "k \<notin> fst ` set al \<Longrightarrow> map_of (al @ [(k, v)]) k = Some v"
  by (induction al) auto

lemma map_of_absent: "k \<notin> fst ` set al \<Longrightarrow> map_of al k = None"
  by (simp add: map_of_eq_None_iff)

lemma siteHashes_Cons:
  "siteHashes sha256 w file (loc # locs) =
     (case fs_content w (pathJoin loc file) of None \<Rightarrow> [] | Some d \<Rightarrow> [(loc, sha256 d)])
       @ siteHashes sha256 w file locs"
  by (simp add: siteHashes_def)

lemma siteHashes_keys:
  "map fst (siteHashes sha256 w file locs) = readableSites w file locs"
  by (induction locs) (auto simp add: siteHashes_def readableSites_def split: option.splits)

lemma recordChecksum_present:
  assumes "\<forall>d. sha256 d \<noteq> []" "file \<notin> fst ` set fl" "loc \<notin> fst ` set e"
  shows "recordChecksum sha256 file loc (reg\<lparr>files := fl @ [(file, e)]\<rparr>) w =
           (Inr (reg\<lparr>files := fl @ [(file, e @ siteHashes sha256 w file [loc])]\<rparr>), w)"
  using assms
  by (simp add: recordChecksum_def Let_def andThen_def calculateChecksum_eq succeed_def
      map_of_last map_entry_last update_fresh siteHashes_def split: option.splits)

lemma recordChecksum_absent:
  assumes "\<forall>d. sha256 d \<noteq> []" "file \<notin> fst ` set (files reg)"
  shows "recordChecksum sha256 file loc reg w =
           (Inr (reg\<lparr>files := files reg @
                   (case fs_content w (pathJoin loc file) of
                      None \<Rightarrow> [] | Some d \<Rightarrow> [(file, [(loc, sha256 d)])])\<rparr>), w)"
  using assms
  by (simp add: recordChecksum_def Let_def andThen_def calculateChecksum_eq succeed_def
      map_of_absent map_entry_last update_fresh split: option.splits)

lemma checksumLocations_present:
  assumes "\<forall>d. sha256 d \<noteq> []" "file \<notin> fst ` set fl" "distinct locs"
    "fst ` set e \<inter> set locs = {}"
  shows "checksumLocations sha256 file locs (reg\<lparr>files := fl @ [(file, e)]\<rparr>) w =
           (Inr (reg\<lparr>files := fl @ [(file, e @ siteHashes sha256 w file locs)]\<rparr>), w)"
  using assms(3,4)
proof (induction locs arbitrary: e)
  case Nil
  then show ?case by (simp add: succeed_def siteHashes_def)
next
  case (Cons loc locs)
  let ?e1 = "e @ siteHashes sha256 w file [loc]"
  have step: "recordChecksum sha256 file loc (reg\<lparr>files := fl @ [(file, e)]\<rparr>) w =
           (Inr (reg\<lparr>files := fl @ [(file, ?e1)]\<rparr>), w)"
    using Cons.prems assms(1,2) by (intro recordChecksum_present) auto
  have keys: "fst ` set ?e1 \<subseteq> fst ` set e \<union> {loc}"
    by (auto simp add: siteHashes_def split: option.splits)
  have "distinct locs" using Cons.prems by simp
  moreover have "fst ` set ?e1 \<inter> set locs = {}"
    using keys Cons.prems by auto
  ultimately have
    "checksumLocations sha256 file locs (reg\<lparr>files := fl @ [(file, ?e1)]\<rparr>) w =
       (Inr (reg\<lparr>files := fl @ [(file, ?e1 @ siteHashes sha256 w file locs)]\<rparr>), w)"
    by (rule Cons.IH)
  then show ?case
    by (simp add: andThen_def step siteHashes_def)
qed

lemma checksumLocations_absent:
  assumes "\<forall>d. sha256 d \<noteq> []" "file \<notin> fst ` set (files reg)" "distinct locs"
  shows "checksumLocations sha256 file locs reg w =
           (Inr (reg\<lparr>files := files reg @
                   (if siteHashes sha256 w file locs = [] then []
                    else [(file, siteHashes sha256 w file locs)])\<rparr>), w)"
  using assms(3)
proof (induction locs)
  case Nil
  then show ?case by (simp add: succeed_def siteHashes_def)
next
  case (Cons loc locs)
  show ?case
  proof (cases "fs_content w (pathJoin loc file)")
    case None
    then have "recordChecksum sha256 file loc reg w = (Inr reg, w)"
      using assms(1,2) by (simp add: recordChecksum_absent)
    then show ?thesis
      using Cons None by (simp add: andThen_def siteHashes_Cons)
  next
    case (Some d)
    then have step: "recordChecksum sha256 file loc reg w =
        (Inr (reg\<lparr>files := files reg @ [(file, [(loc, sha256 d)])]\<rparr>), w)"
      using assms(1,2) by (simp add: recordChecksum_absent)
    have "checksumLocations sha256 file locs (reg\<lparr>files := files reg @ [(file, [(loc, sha256 d)])]\<rparr>) w
        = (Inr (reg\<lparr>files := files reg @
              [(file, [(loc, sha256 d)] @ siteHashes sha256 w file locs)]\<rparr>), w)"
      using Cons.prems assms(1,2) by (intro checksumLocations_present) auto
    then show ?thesis
      using Some by (simp add: andThen_def step siteHashes_Cons)
  qed
qed

lemma fileEntries_keys: "fst ` set (fileEntries sha256 w fs locs) \<subseteq> set fs"
  by (auto simp add: fileEntries_def split: if_splits)

lemma checksumFiles_eq:
  assumes "\<forall>d. sha256 d \<noteq> []" "distinct locs"
  shows "distinct fs \<Longrightarrow> set fs \<inter> fst ` set (files reg) = {} \<Longrightarrow>
         checksumFiles sha256 fs locs reg w =
           (Inr (reg\<lparr>files := files reg @ fileEntries sha256 w fs locs\<rparr>), w)"
proof (induction fs arbitrary: reg)
  case Nil
  then show ?case by (simp add: succeed_def fileEntries_def)
next
  case (Cons f fs)
  let ?new = "if siteHashes sha256 w f locs = [] then []
              else [(f, siteHashes sha256 w f locs)]"
  let ?reg1 = "reg\<lparr>files := files reg @ ?new\<rparr>"
  have step: "checksumLocations sha256 f locs reg w = (Inr ?reg1, w)"
    using Cons.prems assms by (intro checksumLocations_absent) auto
  have "distinct fs" using Cons.prems by simp
  moreover have "set fs \<inter> fst ` set (files ?reg1) = {}"
    using Cons.prems by auto
  ultimately have "checksumFiles sha256 fs locs ?reg1 w =
      (Inr (?reg1\<lparr>files := files ?reg1 @ fileEntries sha256 w fs locs\<rparr>), w)"
    by (rule Cons.IH)
  then show ?case
    by (simp add: andThen_def step fileEntries_def)
qed

lemma map_of_fileEntries:
  "distinct fs \<Longrightarrow> file \<in> set fs \<Longrightarrow>
   map_of (fileEntries sha256 w fs locs) file =
     (if siteHashes sha256 w file locs = [] then None
      else Some (siteHashes sha256 w file locs))"
proof (induction fs)
  case Nil
  then show ?case by simp
next
  case (Cons f fs)
  have cons: "fileEntries sha256 w (f # fs) locs =
      (if siteHashes sha256 w f locs = [] then [] else [(f, siteHashes sha256 w f locs)])
        @ fileEntries sha256 w fs locs"
    by (simp add: fileEntries_def)
  show ?case
  proof (cases "file = f")
    case True
    then have "file \<notin> fst ` set (fileEntries sha256 w fs locs)"
      using Cons.prems fileEntries_keys [of sha256 w fs locs] by auto
    then have "map_of (fileEntries sha256 w fs locs) file = None"
      by (rule map_of_absent)
    then show ?thesis using True by (simp add: cons)
  next
    case False
    then show ?thesis using Cons by (simp add: cons)
  qed
qed

lemma map_of_siteHashes:
  "distinct locs \<Longrightarrow>
   map_of (siteHashes sha256 w file locs) loc =
     (if loc \<in> set locs then map_option sha256 (fs_content w (pathJoin loc file)) else None)"
proof (induction locs)
  case Nil
  then show ?case by (simp add: siteHashes_def)
next
  case (Cons l locs)
  then show ?case
    by (cases "fs_content w (pathJoin l file)") (auto simp add: siteHashes_Cons)
qed

lemma computeRegistry_eq:
  assumes "\<forall>d. sha256 d \<noteq> []" "distinct (persistenceLocations pg)" "distinct (criticalFiles pg)"
  shows "computeRegistry sha256 now pg w =
     (Inr \<lparr> created = now, version = ''1.0.0-persistent'',
            locations = persistenceLocations pg,
            files = fileEntries sha256 w (criticalFiles pg) (persistenceLocations pg),
            integrity = ''guaranteed'' \<rparr>, w)"
  unfolding computeRegistry_def
  using assms by (subst checksumFiles_eq) auto

lemma newPersistenceGuarantee_distinct:
  "distinct (persistenceLocations newPersistenceGuarantee)"
  "distinct (criticalFiles newPersistenceGuarantee)"
  by (simp_all add: newPersistenceGuarantee_def)

lemma pathJoin_file_eq:
  assumes "CHR ''/'' \<notin> set b" "CHR ''/'' \<notin> set b'" "pathJoin a b = pathJoin a' b'"
  shows "b = b'"
proof -
  have tw: "takeWhile (\<lambda>c. c \<noteq> CHR ''/'') (rev (pathJoin x y)) = rev y"
    if "CHR ''/'' \<notin> set y" for x y
  proof -
    have "takeWhile (\<lambda>c. c \<noteq> CHR ''/'') (rev y @ CHR ''/'' # rev x) =
            rev y @ takeWhile (\<lambda>c. c \<noteq> CHR ''/'') (CHR ''/'' # rev x)"
      by (rule takeWhile_append2) (use that in auto)
    then show ?thesis by (simp add: pathJoin_def)
  qed
  have "rev b = takeWhile (\<lambda>c. c \<noteq> CHR ''/'') (rev (pathJoin a b))"
    using assms(1) by (simp add: tw)
  also have "\<dots> = takeWhile (\<lambda>c. c \<noteq> CHR ''/'') (rev (pathJoin a' b'))"
    by (simp only: assms(3))
  also have "\<dots> = rev b'" using assms(2) by (simp add: tw)
  finally show ?thesis by simp
qed

lemma manifest_names:
  "file \<in> set (criticalFiles newPersistenceGuarantee) \<Longrightarrow>
   CHR ''/'' \<notin> set file \<and> file \<noteq> ''checksum-registry.json''"
  by (auto simp add: newPersistenceGuarantee_def)

lemma manifest_path_not_registry:
  assumes "file \<in> set (criticalFiles newPersistenceGuarantee)"
  shows "pathJoin loc file \<noteq> pathJoin loc' ''checksum-registry.json''"
proof
  assume "pathJoin loc file = pathJoin loc' ''checksum-registry.json''"
  moreover have "CHR ''/'' \<notin> set ''checksum-registry.json''" by simp
  ultimately have "file = ''checksum-registry.json''"
    using manifest_names [OF assms] by (intro pathJoin_file_eq [of "file" _ loc loc']) auto
  then show False using manifest_names [OF assms] by simp
qed

lemma siteHashes_console:
  "siteHashes sha256 (w\<lparr>console := c\<rparr>) file locs = siteHashes sha256 w file locs"
  by (simp add: siteHashes_def)

lemma fileEntries_console:
  "fileEntries sha256 (w\<lparr>console := c\<rparr>) fs locs = fileEntries sha256 w fs locs"
  by (simp add: fileEntries_def siteHashes_console cong: if_cong)

lemma saveRegistry_result:
  "\<exists>w'. saveRegistry doc locs w = (Inr (), w')
      \<and> console w' = console w \<and> fs_writable w' = fs_writable w
      \<and> (\<forall>p. fs_content w' p =
            (if p \<in> (\<lambda>l. pathJoin l ''checksum-registry.json'') ` set locs \<and> fs_writable w p
             then Some doc else fs_content w p))"
proof (induction locs arbitrary: w)
  case Nil
  then show ?case by (simp add: succeed_def)
next
  case (Cons loc locs)
  let ?p = "pathJoin loc ''checksum-registry.json''"
  let ?w1 = "if fs_writable w ?p then w\<lparr>fs_content := (fs_content w)(?p \<mapsto> doc)\<rparr> else w"
  have step: "tryCatch (writeFile ?p doc) (\<lambda>error. succeed ()) w = (Inr (), ?w1)"
    by (simp add: tryCatch_def writeFile_def succeed_def)
  from Cons.IH [of ?w1] obtain w' where
    r: "saveRegistry doc locs ?w1 = (Inr (), w')"
    and c: "console w' = console ?w1" and wr: "fs_writable w' = fs_writable ?w1"
    and ct: "\<forall>p. fs_content w' p =
            (if p \<in> (\<lambda>l. pathJoin l ''checksum-registry.json'') ` set locs \<and> fs_writable ?w1 p
             then Some doc else fs_content ?w1 p)"
    by blast
  have "saveRegistry doc (loc # locs) w = (Inr (), w')"
    by (simp only: saveRegistry.simps andThen_def step r prod.case sum.case)
  moreover have "console w' = console w" using c by simp
  moreover have "fs_writable w' = fs_writable w" using wr by simp
  moreover have "\<forall>p. fs_content w' p =
            (if p \<in> (\<lambda>l. pathJoin l ''checksum-registry.json'') ` set (loc # locs) \<and> fs_writable w p
             then Some doc else fs_content w p)"
    using ct by auto
  ultimately show ?case by blast
qed

lemma createChecksumRegistry_readonly:
  assumes "\<forall>d. sha256 d \<noteq> []" "\<forall>p. \<not> fs_writable w p"
  shows "createChecksumRegistry sha256 stringify now newPersistenceGuarantee w =
           (Inr (), w\<lparr>console := console w @ [CreatingChecksumRegistry, ChecksumRegistryCreated]\<rparr>)"
proof -
  let ?pg = newPersistenceGuarantee
  let ?locs = "persistenceLocations ?pg"
  let ?reg = "\<lparr> created = now, version = ''1.0.0-persistent'', locations = ?locs,
            files = fileEntries sha256 w (criticalFiles ?pg) ?locs,
            integrity = ''guaranteed'' \<rparr>"
  let ?w0 = "w\<lparr>console := console w @ [CreatingChecksumRegistry]\<rparr>"
  have comp0: "computeRegistry sha256 now ?pg ?w0 = (Inr ?reg, ?w0)"
    using computeRegistry_eq [OF assms(1) newPersistenceGuarantee_distinct, of now ?w0]
    by (simp only: fileEntries_console)
  obtain w1 where
    sv: "saveRegistry (stringify ?reg) ?locs ?w0 = (Inr (), w1)"
    and c: "console w1 = console ?w0" and wr: "fs_writable w1 = fs_writable ?w0"
    and ct: "\<forall>p. fs_content w1 p =
            (if p \<in> (\<lambda>l. pathJoin l ''checksum-registry.json'') ` set ?locs \<and> fs_writable ?w0 p
             then Some (stringify ?reg) else fs_content ?w0 p)"
    using saveRegistry_result [of "stringify ?reg" ?locs ?w0] by blast
  have "fs_content w1 = fs_content ?w0" using ct assms(2) by auto
  then have "w1 = ?w0" using c wr by (intro World.equality) simp_all
  then show ?thesis
    by (simp add: createChecksumRegistry_def andThen_def consoleLog_def comp0 sv)
qed

text \<open>
  C7: for the object the constructor builds, a hash function that never returns the empty
  string (a SHA-256 hex digest has 64 characters) and any file of the manifest: the
  registry that createChecksumRegistry computes and saves lists for that file exactly the
  locations at which the file is readable, each once, so N keys for a file readable at N
  locations. The value at a location is the hash of the content of that location's copy
  of the file, which the run leaves unchanged, and it is what calculateChecksum returns
  for that copy after the run; a location at which the file is unreadable has no value,
  and a file readable nowhere has no entry at all. calculateChecksum never throws: on
  every path it returns the hash of the content read there, or null when the path cannot
  be read. createChecksumRegistry itself returns normally and the saved document is the
  rendering of that registry at every location whose registry path is writable.
\<close>

theorem C7_registry_entries:
  assumes "\<forall>d. sha256 d \<noteq> []"
    and "file \<in> set (criticalFiles newPersistenceGuarantee)"
  shows "\<exists>registry w'.
           computeRegistry sha256 now newPersistenceGuarantee w = (Inr registry, w)
         \<and> createChecksumRegistry sha256 stringify now newPersistenceGuarantee w = (Inr (), w')
         \<and> (\<forall>loc \<in> set (persistenceLocations newPersistenceGuarantee).
               fs_writable w (pathJoin loc ''checksum-registry.json'') \<longrightarrow>
               fs_content w' (pathJoin loc ''checksum-registry.json'') = Some (stringify registry))
         \<and> siteKeys registry file =
             readableSites w' file (persistenceLocations newPersistenceGuarantee)
         \<and> distinct (siteKeys registry file)
         \<and> (\<forall>loc \<in> set (siteKeys registry file).
               siteHash registry file loc \<noteq> None
             \<and> calculateChecksum sha256 (pathJoin loc file) w' =
                 (Inr (siteHash registry file loc), w'))
         \<and> (\<forall>loc. loc \<notin> set (readableSites w' file (persistenceLocations newPersistenceGuarantee))
               \<longrightarrow> siteHash registry file loc = None)
         \<and> (map_of (files registry) file = None \<longleftrightarrow>
               readableSites w' file (persistenceLocations newPersistenceGuarantee) = [])
         \<and> (\<forall>p. \<exists>r. calculateChecksum sha256 p w = (Inr r, w))
         \<and> (\<forall>loc. fs_content w' (pathJoin loc file) = fs_content w (pathJoin loc file))
         \<and> (\<forall>loc. siteHash registry file loc =
               (if loc \<in> set (persistenceLocations newPersistenceGuarantee)
                then map_option sha256 (fs_content w' (pathJoin loc file)) else None))
         \<and> (\<forall>p. calculateChecksum sha256 p w = (Inr (map_option sha256 (fs_content w p)), w))"
proof -
  let ?pg = newPersistenceGuarantee
  let ?locs = "persistenceLocations ?pg"
  let ?reg = "\<lparr> created = now, version = ''1.0.0-persistent'', locations = ?locs,
            files = fileEntries sha256 w (criticalFiles ?pg) ?locs,
            integrity = ''guaranteed'' \<rparr>"
  have dl: "distinct ?locs" and df: "distinct (criticalFiles ?pg)"
    by (rule newPersistenceGuarantee_distinct)+
  have comp: "computeRegistry sha256 now ?pg w = (Inr ?reg, w)"
    using assms(1) dl df by (rule computeRegistry_eq)
  let ?w0 = "w\<lparr>console := console w @ [CreatingChecksumRegistry]\<rparr>"
  have comp0: "computeRegistry sha256 now ?pg ?w0 = (Inr ?reg, ?w0)"
    using computeRegistry_eq [OF assms(1) dl df, of now ?w0]
    by (simp only: fileEntries_console)
  obtain w1 where
    sv: "saveRegistry (stringify ?reg) ?locs ?w0 = (Inr (), w1)"
    and ct: "\<forall>p. fs_content w1 p =
            (if p \<in> (\<lambda>l. pathJoin l ''checksum-registry.json'') ` set ?locs \<and> fs_writable ?w0 p
             then Some (stringify ?reg) else fs_content ?w0 p)"
    using saveRegistry_result [of "stringify ?reg" ?locs ?w0] by blast
  let ?w' = "w1\<lparr>console := console w1 @ [ChecksumRegistryCreated]\<rparr>"
  have run: "createChecksumRegistry sha256 stringify now ?pg w = (Inr (), ?w')"
    by (simp add: createChecksumRegistry_def andThen_def consoleLog_def comp0 sv)
  have written: "\<forall>loc \<in> set ?locs.
               fs_writable w (pathJoin loc ''checksum-registry.json'') \<longrightarrow>
               fs_content ?w' (pathJoin loc ''checksum-registry.json'') = Some (stringify ?reg)"
    using ct by simp
  have same: "fs_content w1 (pathJoin loc file) = fs_content w (pathJoin loc file)" for loc
    using ct manifest_path_not_registry [OF assms(2), of loc] by auto
  have rs: "readableSites ?w' file ?locs = readableSites w file ?locs"
    by (simp add: readableSites_def same)
  have entry: "map_of (fileEntries sha256 w (criticalFiles ?pg) ?locs) file =
     (if siteHashes sha256 w file ?locs = [] then None
      else Some (siteHashes sha256 w file ?locs))"
    by (rule map_of_fileEntries [OF df assms(2)])
  have keys0: "map fst (siteHashes sha256 w file ?locs) = readableSites w file ?locs"
    by (rule siteHashes_keys)
  have keys: "siteKeys ?reg file = readableSites w file ?locs"
    using keys0 by (auto simp add: siteKeys_def entry)
  have hash: "siteHash ?reg file loc =
      (if loc \<in> set ?locs then map_option sha256 (fs_content w (pathJoin loc file)) else None)"
    for loc
    using map_of_siteHashes [OF dl, of sha256 w "file" loc]
    by (cases "siteHashes sha256 w file ?locs = []") (simp_all add: siteHash_def entry)
  have dist: "distinct (siteKeys ?reg file)"
    using dl by (simp add: keys readableSites_def)
  have each: "\<forall>loc \<in> set (siteKeys ?reg file).
               siteHash ?reg file loc \<noteq> None
             \<and> calculateChecksum sha256 (pathJoin loc file) ?w' =
                 (Inr (siteHash ?reg file loc), ?w')"
    by (auto simp add: keys readableSites_def hash calculateChecksum_eq same)
  have none: "\<forall>loc. loc \<notin> set (readableSites ?w' file ?locs) \<longrightarrow> siteHash ?reg file loc = None"
    unfolding rs by (auto simp add: readableSites_def hash)
  have absent: "map_of (files ?reg) file = None \<longleftrightarrow> readableSites ?w' file ?locs = []"
    unfolding rs using keys0 by (auto simp add: entry)
  have total: "\<forall>p. \<exists>r. calculateChecksum sha256 p w = (Inr r, w)"
    by (simp add: calculateChecksum_eq)
  have keys': "siteKeys ?reg file = readableSites ?w' file ?locs"
    by (simp only: keys rs)
  have same': "\<forall>loc. fs_content ?w' (pathJoin loc file) = fs_content w (pathJoin loc file)"
    by (simp add: same)
  have hash': "\<forall>loc. siteHash ?reg file loc =
      (if loc \<in> set ?locs then map_option sha256 (fs_content ?w' (pathJoin loc file)) else None)"
    by (simp add: hash same)
  have cval: "\<forall>p. calculateChecksum sha256 p w = (Inr (map_option sha256 (fs_content w p)), w)"
    by (simp add: calculateChecksum_eq)
  show ?thesis
    by (intro exI [of _ ?reg] exI [of _ ?w'] conjI)
       (fact comp run written keys' dist each none absent total same' hash' cval)+
qed

theorem C7_registry_entries_witness:
  "(\<forall>d. demoHash d \<noteq> [])
   \<and> ''.env'' \<in> set (criticalFiles newPersistenceGuarantee)
   \<and> (\<exists>registry.
         computeRegistry demoHash ''2026-01-01T00:00:00.000Z'' newPersistenceGuarantee demoWorld
           = (Inr registry, demoWorld)
       \<and> siteKeys registry ''.env'' = [''/private/var/db/.head-crab'', ''/opt/head-crab'']
       \<and> siteHash registry ''.env'' ''/private/var/db/.head-crab'' = Some ''sha256:KEY=1''
       \<and> siteHash registry ''.env'' ''/opt/head-crab'' = Some ''sha256:KEY=2''
       \<and> siteHash registry ''.env'' ''/usr/local/share/.head-crab'' = None)
   \<and> calculateChecksum demoHash (pathJoin ''/opt/head-crab'' ''.env'') demoWorld =
       (Inr (Some ''sha256:KEY=2''), demoWorld)
   \<and> calculateChecksum demoHash (pathJoin ''/opt/head-crab'' ''rate-limiter.js'') demoWorld =
       (Inr None, demoWorld)"
proof -
  have h: "\<forall>d. demoHash d \<noteq> []" by (simp add: demoHash_def)
  have f: "''.env'' \<in> set (criticalFiles newPersistenceGuarantee)"
    by (simp add: newPersistenceGuarantee_def)
  have ro: "\<forall>p. \<not> fs_writable demoWorld p" by (simp add: demoWorld_def)
  let ?locs = "persistenceLocations newPersistenceGuarantee"
  let ?w' = "demoWorld\<lparr>console := console demoWorld @
               [CreatingChecksumRegistry, ChecksumRegistryCreated]\<rparr>"
  have run: "createChecksumRegistry demoHash (\<lambda>r. []) ''2026-01-01T00:00:00.000Z''
               newPersistenceGuarantee demoWorld = (Inr (), ?w')"
    using h ro by (rule createChecksumRegistry_readonly)
  have rs: "readableSites ?w' ''.env'' ?locs =
              [''/private/var/db/.head-crab'', ''/opt/head-crab'']"
    by (simp add: readableSites_def demoWorld_def newPersistenceGuarantee_def pathJoin_def)
  have m: "''/private/var/db/.head-crab'' \<in> set ?locs" "''/opt/head-crab'' \<in> set ?locs"
    "''/usr/local/share/.head-crab'' \<in> set ?locs"
    by (simp_all add: newPersistenceGuarantee_def)
  have v: "map_option demoHash (fs_content ?w' (pathJoin ''/private/var/db/.head-crab'' ''.env''))
             = Some ''sha256:KEY=1''"
    "map_option demoHash (fs_content ?w' (pathJoin ''/opt/head-crab'' ''.env''))
             = Some ''sha256:KEY=2''"
    "map_option demoHash (fs_content ?w' (pathJoin ''/usr/local/share/.head-crab'' ''.env''))
             = None"
    "map_option demoHash (fs_content demoWorld (pathJoin ''/opt/head-crab'' ''.env''))
             = Some ''sha256:KEY=2''"
    "map_option demoHash (fs_content demoWorld (pathJoin ''/opt/head-crab'' ''rate-limiter.js''))
             = None"
    by (simp_all add: demoWorld_def demoHash_def pathJoin_def)
  from C7_registry_entries [OF h f, of "''2026-01-01T00:00:00.000Z''" demoWorld "\<lambda>r. []"]
  obtain registry w' where
    a: "computeRegistry demoHash ''2026-01-01T00:00:00.000Z'' newPersistenceGuarantee demoWorld
           = (Inr registry, demoWorld)"
    and b: "createChecksumRegistry demoHash (\<lambda>r. []) ''2026-01-01T00:00:00.000Z''
               newPersistenceGuarantee demoWorld = (Inr (), w')"
    and c: "siteKeys registry ''.env'' = readableSites w' ''.env'' ?locs"
    and e: "\<forall>loc. siteHash registry ''.env'' loc =
               (if loc \<in> set ?locs
                then map_option demoHash (fs_content w' (pathJoin loc ''.env'')) else None)"
    and g: "\<forall>p. calculateChecksum demoHash p demoWorld =
               (Inr (map_option demoHash (fs_content demoWorld p)), demoWorld)"
    by blast
  from b run have w: "w' = ?w'" by simp
  from c rs w have 1:
    "siteKeys registry ''.env'' = [''/private/var/db/.head-crab'', ''/opt/head-crab'']"
    by simp
  have 2: "siteHash registry ''.env'' ''/private/var/db/.head-crab'' = Some ''sha256:KEY=1''"
    using e m(1) v(1) unfolding w by metis
  have 3: "siteHash registry ''.env'' ''/opt/head-crab'' = Some ''sha256:KEY=2''"
    using e m(2) v(2) unfolding w by metis
  have 4: "siteHash registry ''.env'' ''/usr/local/share/.head-crab'' = None"
    using e m(3) v(3) unfolding w by metis
  have 5: "calculateChecksum demoHash (pathJoin ''/opt/head-crab'' ''.env'') demoWorld =
       (Inr (Some ''sha256:KEY=2''), demoWorld)"
    using g v(4) by metis
  have 6: "calculateChecksum demoHash (pathJoin ''/opt/head-crab'' ''rate-limiter.js'') demoWorld =
       (Inr None, demoWorld)"
    using g v(5) by metis
  from a 1 2 3 4 have ex: "\<exists>registry.
         computeRegistry demoHash ''2026-01-01T00:00:00.000Z'' newPersistenceGuarantee demoWorld
           = (Inr registry, demoWorld)
       \<and> siteKeys registry ''.env'' = [''/private/var/db/.head-crab'', ''/opt/head-crab'']
       \<and> siteHash registry ''.env'' ''/private/var/db/.head-crab'' = Some ''sha256:KEY=1''
       \<and> siteHash registry ''.env'' ''/opt/head-crab'' = Some ''sha256:KEY=2''
       \<and> siteHash registry ''.env'' ''/usr/local/share/.head-crab'' = None"
    by blast
  show ?thesis
    by (intro conjI) (fact h f ex 5 6)+
qed

end
